theory Spec2Isabelle
  imports Main "HOL-Library.Char_ord"
begin

section \<open>Regular expressions as the guardrails use them\<close>

text \<open>
  The guardrails of \<^verbatim>\<open>agent.py\<close> are lists of regular expressions handed to
  \<^verbatim>\<open>re.search\<close> and \<^verbatim>\<open>re.sub\<close>. A text is a list of characters, one
  \<open>char\<close> per code point (so code points 0 to 255). A pattern is a value of \<open>rx\<close>; the
  matcher below is the backtracking matcher of \<^verbatim>\<open>re\<close>: it lists the ways a pattern
  can match at a position in the order in which backtracking tries them, so the head of the
  list is the match \<^verbatim>\<open>re\<close> reports. A matcher state is the character before the
  position (needed by \<^verbatim>\<open>\b\<close>) and the text from the position on.
\<close>

datatype rx =
    Eps
  | Cls "char \<Rightarrow> bool"
  | Bnd
  | Seq rx rx
  | Alt rx rx
  | Opt rx
  | Star rx

type_synonym mstate = "char option \<times> string"

definition in_range :: "char \<Rightarrow> char \<Rightarrow> char \<Rightarrow> bool" where
  "in_range lo hi c = (lo \<le> c \<and> c \<le> hi)"

definition is_lower :: "char \<Rightarrow> bool" where
  "is_lower c = in_range CHR ''a'' CHR ''z'' c"

definition is_upper :: "char \<Rightarrow> bool" where
  "is_upper c = in_range CHR ''A'' CHR ''Z'' c"

definition is_digit :: "char \<Rightarrow> bool" where
  "is_digit c = in_range CHR ''0'' CHR ''9'' c"

definition is_word :: "char \<Rightarrow> bool" where
  \<comment> \<open>\<^verbatim>\<open>\w\<close> of a str pattern: alphanumeric or underscore; the second line is the
      alphanumeric code points between 128 and 255.\<close>
  "is_word c = (is_lower c \<or> is_upper c \<or> is_digit c \<or> c = CHR ''_''
     \<or> c = CHR 0xAA \<or> c = CHR 0xB2 \<or> c = CHR 0xB3 \<or> c = CHR 0xB5 \<or> c = CHR 0xB9
     \<or> c = CHR 0xBA \<or> in_range (CHR 0xBC) (CHR 0xBE) c \<or> in_range (CHR 0xC0) (CHR 0xD6) c
     \<or> in_range (CHR 0xD8) (CHR 0xF6) c \<or> in_range (CHR 0xF8) (CHR 0xFF) c)"

definition is_space :: "char \<Rightarrow> bool" where
  \<comment> \<open>\<^verbatim>\<open>\s\<close> of a str pattern.\<close>
  "is_space c = (c = CHR '' '' \<or> in_range (CHR 0x09) (CHR 0x0D) c
     \<or> in_range (CHR 0x1C) (CHR 0x1F) c \<or> c = CHR 0x85 \<or> c = CHR 0xA0)"

definition to_lower :: "char \<Rightarrow> char" where
  "to_lower c = (if is_upper c then char_of (of_char c + (32::nat)) else c)"

definition word_before :: "char option \<Rightarrow> bool" where
  "word_before p = (case p of None \<Rightarrow> False | Some c \<Rightarrow> is_word c)"

definition word_after :: "string \<Rightarrow> bool" where
  "word_after s = (case s of [] \<Rightarrow> False | c # _ \<Rightarrow> is_word c)"

fun star_from :: "(mstate \<Rightarrow> mstate list) \<Rightarrow> nat \<Rightarrow> mstate \<Rightarrow> mstate list" where
  "star_from g 0 st = [st]"
| "star_from g (Suc n) st =
     concat (map (\<lambda>st'. if length (snd st') < length (snd st) then star_from g n st' else [])
                 (g st)) @ [st]"

primrec rmatch :: "rx \<Rightarrow> mstate \<Rightarrow> mstate list" where
  "rmatch Eps st = [st]"
| "rmatch (Cls P) st =
     (case snd st of [] \<Rightarrow> [] | c # cs \<Rightarrow> if P c then [(Some c, cs)] else [])"
| "rmatch Bnd st = (if word_before (fst st) \<noteq> word_after (snd st) then [st] else [])"
| "rmatch (Seq a b) st = concat (map (rmatch b) (rmatch a st))"
| "rmatch (Alt a b) st = rmatch a st @ rmatch b st"
| "rmatch (Opt a) st = rmatch a st @ [st]"
| "rmatch (Star a) st = star_from (rmatch a) (length (snd st)) st"

text \<open>\<^verbatim>\<open>re.search(pattern, text)\<close> as a truth value: is there a match at some position?\<close>

fun search_from :: "rx \<Rightarrow> char option \<Rightarrow> string \<Rightarrow> bool" where
  "search_from r p [] = (rmatch r (p, []) \<noteq> [])"
| "search_from r p (c # cs) = (rmatch r (p, c # cs) \<noteq> [] \<or> search_from r (Some c) cs)"

definition re_search :: "rx \<Rightarrow> string \<Rightarrow> bool" where
  "re_search r text = search_from r None text"

text \<open>
  \<^verbatim>\<open>re.sub(pattern, repl, text)\<close>: scan from the left, replace the match found at a
  position and go on behind it, copy the character where nothing matches. After an empty match
  the next match at the same position must be non-empty (the flag \<open>adv\<close>).
\<close>

function sub_from :: "rx \<Rightarrow> string \<Rightarrow> bool \<Rightarrow> char option \<Rightarrow> string \<Rightarrow> string" where
  "sub_from r repl adv p [] = (if \<not> adv \<and> rmatch r (p, []) \<noteq> [] then repl else [])"
| "sub_from r repl adv p (c # cs) =
     (case (if adv then filter (\<lambda>st'. length (snd st') < Suc (length cs)) (rmatch r (p, c # cs))
            else rmatch r (p, c # cs)) of
        [] \<Rightarrow> c # sub_from r repl False (Some c) cs
      | st' # _ \<Rightarrow>
          if length (snd st') < Suc (length cs) then repl @ sub_from r repl False (fst st') (snd st')
          else if adv then c # sub_from r repl False (Some c) cs
          else repl @ sub_from r repl True p (c # cs))"
  by pat_completeness auto
termination
  by (relation "measure (\<lambda>(r, repl, adv, p, s). 2 * length s + (if adv then 0 else 1))") auto

definition re_sub :: "rx \<Rightarrow> string \<Rightarrow> string \<Rightarrow> string" where
  "re_sub r repl text = sub_from r repl False None text"

subsection \<open>Pattern notation\<close>

fun seqs :: "rx list \<Rightarrow> rx" where
  "seqs [] = Eps"
| "seqs [r] = r"
| "seqs (r # rs) = Seq r (seqs rs)"

fun alts :: "rx list \<Rightarrow> rx" where
  "alts [] = Cls (\<lambda>c. False)"
| "alts [r] = r"
| "alts (r # rs) = Alt r (alts rs)"

text \<open>\<open>lit\<close> is a literal string, \<open>lit_ci\<close> the same under the flag \<^verbatim>\<open>(?i)\<close>.\<close>

definition lit :: "string \<Rightarrow> rx" where
  "lit s = seqs (map (\<lambda>a. Cls (\<lambda>c. c = a)) s)"

definition lit_ci :: "string \<Rightarrow> rx" where
  "lit_ci s = seqs (map (\<lambda>a. Cls (\<lambda>c. to_lower c = to_lower a)) s)"

text \<open>\<^verbatim>\<open>r{n}\<close>, \<^verbatim>\<open>r{n,}\<close>, \<^verbatim>\<open>r{0,n}\<close> and \<^verbatim>\<open>r+\<close>, all greedy.\<close>

fun rep :: "nat \<Rightarrow> rx \<Rightarrow> rx" where
  "rep 0 r = Eps"
| "rep (Suc n) r = Seq r (rep n r)"

definition at_least :: "nat \<Rightarrow> rx \<Rightarrow> rx" where
  "at_least n r = Seq (rep n r) (Star r)"

fun up_to :: "nat \<Rightarrow> rx \<Rightarrow> rx" where
  "up_to 0 r = Eps"
| "up_to (Suc n) r = Opt (Seq r (up_to n r))"

definition one_or_more :: "rx \<Rightarrow> rx" where
  "one_or_more r = Seq r (Star r)"

definition any_char :: rx where
  \<comment> \<open>\<^verbatim>\<open>.\<close> without DOTALL: anything but a newline\<close>
  "any_char = Cls (\<lambda>c. c \<noteq> CHR 0x0A)"

section \<open>Safety guardrails\<close>

subsection \<open>Character classes of the patterns\<close>

definition cls_key_sep :: "char \<Rightarrow> bool" where
  \<comment> \<open>\<^verbatim>\<open>[\s:=]\<close>\<close>
  "cls_key_sep c = (is_space c \<or> c = CHR '':'' \<or> c = CHR ''='')"

definition cls_quote :: "char \<Rightarrow> bool" where
  \<comment> \<open>a single or a double quote\<close>
  "cls_quote c = (c = CHR 0x27 \<or> c = CHR 0x22)"

definition cls_word_dash :: "char \<Rightarrow> bool" where
  \<comment> \<open>\<^verbatim>\<open>[\w\-]\<close>\<close>
  "cls_word_dash c = (is_word c \<or> c = CHR ''-'')"

definition cls_alnum :: "char \<Rightarrow> bool" where
  \<comment> \<open>\<^verbatim>\<open>[a-zA-Z0-9]\<close>\<close>
  "cls_alnum c = (is_lower c \<or> is_upper c \<or> is_digit c)"

definition cls_token :: "char \<Rightarrow> bool" where
  \<comment> \<open>\<^verbatim>\<open>[a-zA-Z0-9\-_]\<close>\<close>
  "cls_token c = (cls_alnum c \<or> c = CHR ''-'' \<or> c = CHR ''_'')"

definition cls_hex :: "char \<Rightarrow> bool" where
  \<comment> \<open>\<^verbatim>\<open>[a-f0-9]\<close>\<close>
  "cls_hex c = (in_range CHR ''a'' CHR ''f'' c \<or> is_digit c)"

definition cls_path :: "char \<Rightarrow> bool" where
  \<comment> \<open>\<^verbatim>\<open>[\w/]\<close>\<close>
  "cls_path c = (is_word c \<or> c = CHR ''/'')"

definition cls_env :: "char \<Rightarrow> bool" where
  \<comment> \<open>\<^verbatim>\<open>[A-Z_]\<close> under \<^verbatim>\<open>(?i)\<close>\<close>
  "cls_env c = (is_upper c \<or> is_lower c \<or> c = CHR ''_'')"

definition cls_us_dash :: "char \<Rightarrow> bool" where
  \<comment> \<open>\<^verbatim>\<open>[_-]\<close>\<close>
  "cls_us_dash c = (c = CHR ''_'' \<or> c = CHR ''-'')"

subsection \<open>The pattern lists\<close>

definition SECRET_PATTERNS :: "rx list" where
  \<open>SECRET_PATTERNS =
   [ \<comment> \<open>\<^verbatim>\<open>(?i)(api[_-]?key|secret|token|password|credential)[\s:=]+Q?[\w\-]{16,}\<close>,
         where \<^verbatim>\<open>Q\<close> is the class of the single and the double quote\<close>
     seqs [alts [seqs [lit_ci ''api'', Opt (Cls cls_us_dash), lit_ci ''key''], lit_ci ''secret'',
                 lit_ci ''token'', lit_ci ''password'', lit_ci ''credential''],
           one_or_more (Cls cls_key_sep), Opt (Cls cls_quote), at_least 16 (Cls cls_word_dash)],
     \<comment> \<open>\<^verbatim>\<open>(?i)bearer\s+[a-zA-Z0-9\-_]+\<close>\<close>
     seqs [lit_ci ''bearer'', one_or_more (Cls is_space), one_or_more (Cls cls_token)],
     \<comment> \<open>\<^verbatim>\<open>AIza[0-9A-Za-z\-_]{35}\<close>\<close>
     seqs [lit ''AIza'', rep 35 (Cls cls_token)],
     \<comment> \<open>\<^verbatim>\<open>sk-[a-zA-Z0-9]{32,}\<close>\<close>
     seqs [lit ''sk-'', at_least 32 (Cls cls_alnum)],
     \<comment> \<open>\<^verbatim>\<open>ghp_[a-zA-Z0-9]{36}\<close>\<close>
     seqs [lit ''ghp_'', rep 36 (Cls cls_alnum)],
     \<comment> \<open>\<^verbatim>\<open>[a-f0-9]{64}\<close>\<close>
     rep 64 (Cls cls_hex),
     \<comment> \<open>\<^verbatim>\<open>/Users/[\w/]+\<close>\<close>
     seqs [lit ''/Users/'', one_or_more (Cls cls_path)],
     \<comment> \<open>\<^verbatim>\<open>(?i)env\.[A-Z_]+\<close>\<close>
     seqs [lit_ci ''env'', lit ''.'', one_or_more (Cls cls_env)] ]\<close>

definition HARMFUL_CONTENT_PATTERNS :: "rx list" where
  \<open>HARMFUL_CONTENT_PATTERNS =
   [ \<comment> \<open>\<^verbatim>\<open>(?i)\b(kill|murder|attack|bomb|terrorist|suicide)\b\<close>\<close>
     seqs [Bnd, alts [lit_ci ''kill'', lit_ci ''murder'', lit_ci ''attack'', lit_ci ''bomb'',
                      lit_ci ''terrorist'', lit_ci ''suicide''], Bnd],
     \<comment> \<open>\<^verbatim>\<open>(?i)\b(scam|fraud|ponzi|rugpull|pump.?and.?dump)\b\<close>\<close>
     seqs [Bnd, alts [lit_ci ''scam'', lit_ci ''fraud'', lit_ci ''ponzi'', lit_ci ''rugpull'',
                      seqs [lit_ci ''pump'', Opt any_char, lit_ci ''and'', Opt any_char,
                            lit_ci ''dump'']], Bnd],
     \<comment> \<open>\<^verbatim>\<open>(?i)(guaranteed.{0,10}(returns|profit)|100%.{0,5}(profit|returns|gains)|can\'t lose|risk.?free)\<close>\<close>
     alts [seqs [lit_ci ''guaranteed'', up_to 10 any_char, alts [lit_ci ''returns'', lit_ci ''profit'']],
           seqs [lit_ci ''100%'', up_to 5 any_char,
                 alts [lit_ci ''profit'', lit_ci ''returns'', lit_ci ''gains'']],
           seqs [lit_ci ''can'', Cls (\<lambda>c. c = CHR 0x27), lit_ci ''t lose''],
           seqs [lit_ci ''risk'', Opt any_char, lit_ci ''free'']],
     \<comment> \<open>\<^verbatim>\<open>(?i)\b(buy now|act fast|limited time|last chance).{0,30}(crypto|coin|token)\<close>\<close>
     seqs [Bnd, alts [lit_ci ''buy now'', lit_ci ''act fast'', lit_ci ''limited time'',
                      lit_ci ''last chance''],
           up_to 30 any_char, alts [lit_ci ''crypto'', lit_ci ''coin'', lit_ci ''token'']],
     \<comment> \<open>\<^verbatim>\<open>(?i)\b(hate|racist|sexist|homophobic)\b\<close>\<close>
     seqs [Bnd, alts [lit_ci ''hate'', lit_ci ''racist'', lit_ci ''sexist'', lit_ci ''homophobic''],
           Bnd] ]\<close>

definition SELF_REFERENCE_PATTERNS :: "rx list" where
  \<open>SELF_REFERENCE_PATTERNS =
   [ \<comment> \<open>\<^verbatim>\<open>(?i)\b(my|our) (system prompt|instructions|api|configuration)\<close>\<close>
     seqs [Bnd, alts [lit_ci ''my'', lit_ci ''our''], lit_ci '' '',
           alts [lit_ci ''system prompt'', lit_ci ''instructions'', lit_ci ''api'',
                 lit_ci ''configuration'']],
     \<comment> \<open>\<^verbatim>\<open>(?i)\b(pydantic|gemini|google).{0,20}(model|api|key)\<close>\<close>
     seqs [Bnd, alts [lit_ci ''pydantic'', lit_ci ''gemini'', lit_ci ''google''],
           up_to 20 any_char, alts [lit_ci ''model'', lit_ci ''api'', lit_ci ''key'']],
     \<comment> \<open>\<^verbatim>\<open>(?i)\b(moltbook).{0,10}(client|token|secret)\<close>\<close>
     seqs [Bnd, lit_ci ''moltbook'', up_to 10 any_char,
           alts [lit_ci ''client'', lit_ci ''token'', lit_ci ''secret'']] ]\<close>

subsection \<open>Detectors, redaction and validation\<close>

text \<open>Each detector returns at the first pattern that matches somewhere in the text.\<close>

fun first_match :: "rx list \<Rightarrow> string \<Rightarrow> bool" where
  "first_match [] text = False"
| "first_match (pattern # rest) text = (if re_search pattern text then True else first_match rest text)"

definition contains_secrets :: "string \<Rightarrow> bool" where
  "contains_secrets text = first_match SECRET_PATTERNS text"

definition contains_harmful_content :: "string \<Rightarrow> bool" where
  "contains_harmful_content text = first_match HARMFUL_CONTENT_PATTERNS text"

definition contains_self_reference :: "string \<Rightarrow> bool" where
  "contains_self_reference text = first_match SELF_REFERENCE_PATTERNS text"

definition REDACTED :: string where
  "REDACTED = ''[REDACTED]''"

fun sub_all :: "rx list \<Rightarrow> string \<Rightarrow> string" where
  "sub_all [] sanitized = sanitized"
| "sub_all (pattern # rest) sanitized = sub_all rest (re_sub pattern REDACTED sanitized)"

definition sanitize_content :: "string \<Rightarrow> string" where
  "sanitize_content text = sub_all SECRET_PATTERNS text"

definition validate_output_content :: "string \<Rightarrow> bool \<times> string option" where
  "validate_output_content text =
     (if contains_secrets text then (False, Some ''Content contains potential secrets'')
      else if contains_harmful_content text
        then (False, Some ''Content contains harmful or prohibited material'')
      else if contains_self_reference text
        then (False, Some ''Content reveals internal implementation details'')
      else if length text < 10 then (False, Some ''Content too short to be valuable'')
      else if length text > 5000 then (False, Some ''Content too long'')
      else (True, None))"

section \<open>The action history and the external collaborators\<close>

text \<open>
  An entry of \<^verbatim>\<open>action_history\<close> is a Python dict with string keys; it is kept as an
  association list in insertion order. \<open>py_get\<close> is \<^verbatim>\<open>dict.get(key)\<close>, whose
  default is \<^verbatim>\<open>None\<close>.
\<close>

datatype pyval = PyNone | Str string | Bool bool

type_synonym action_record = "(string \<times> pyval) list"

definition py_get :: "action_record \<Rightarrow> string \<Rightarrow> pyval" where
  "py_get a k = (case map_of a k of None \<Rightarrow> PyNone | Some v \<Rightarrow> v)"


fun truthy :: "pyval \<Rightarrow> bool" where
  "truthy PyNone = False"
| "truthy (Str s) = (s \<noteq> [])"
| "truthy (Bool b) = b"

definition opt_val :: "string option \<Rightarrow> pyval" where
  "opt_val x = (case x of None \<Rightarrow> PyNone | Some s \<Rightarrow> Str s)"

definition fmt_opt :: "string option \<Rightarrow> string" where
  \<comment> \<open>an optional string inside an f-string\<close>
  "fmt_opt x = (case x of None \<Rightarrow> ''None'' | Some s \<Rightarrow> s)"

definition last_n :: "nat \<Rightarrow> 'a list \<Rightarrow> 'a list" where
  \<comment> \<open>the slice \<^verbatim>\<open>xs[-n:]\<close> for positive \<open>n\<close>\<close>
  "last_n n xs = drop (length xs - n) xs"

fun starts_with :: "string \<Rightarrow> string \<Rightarrow> bool" where
  "starts_with [] s = True"
| "starts_with (a # as) [] = False"
| "starts_with (a # as) (c # cs) = (a = c \<and> starts_with as cs)"

fun str_contains :: "string \<Rightarrow> string \<Rightarrow> bool" where
  \<comment> \<open>\<^verbatim>\<open>needle in s\<close>\<close>
  "str_contains needle [] = (needle = [])"
| "str_contains needle (c # cs) = (starts_with needle (c # cs) \<or> str_contains needle cs)"

text \<open>
  The Moltbook client is external. A call either raises an exception, of which the code only
  uses \<^verbatim>\<open>str(e)\<close>, or returns; of the value returned only the post id under
  \<^verbatim>\<open>["post"]["id"]\<close> is read, if there is one (an answer of a shape that makes this
  lookup raise counts as a call that raises). The answer may depend on the calls made before. The world a run acts on is the ledger and the log of the calls made to the client.
\<close>

datatype api_call =
    ApiCreatePost string string string
  | ApiCreateComment string string
  | ApiUpvotePost string
  | ApiFollowAgent string
  | ApiClose

datatype api_outcome = Raises string | Returns "string option"

type_synonym api = "api_call list \<Rightarrow> api_call \<Rightarrow> api_outcome"

record world =
  action_history :: "action_record list"
  api_log :: "api_call list"

definition call_api :: "api \<Rightarrow> api_call \<Rightarrow> world \<Rightarrow> api_outcome \<times> world" where
  "call_api env c w = (env (api_log w) c, w\<lparr>api_log := api_log w @ [c]\<rparr>)"

definition append_record :: "action_record \<Rightarrow> world \<Rightarrow> world" where
  "append_record a w = w\<lparr>action_history := action_history w @ [a]\<rparr>"

definition recent_successes :: "string \<Rightarrow> nat \<Rightarrow> action_record list \<Rightarrow> action_record list" where
  \<comment> \<open>\<^verbatim>\<open>[a for a in history[-n:] if a.get("action") == kind and a.get("success")]\<close>\<close>
  "recent_successes kind n history =
     filter (\<lambda>a. py_get a ''action'' = Str kind \<and> truthy (py_get a ''success'')) (last_n n history)"

section \<open>The tools\<close>

definition create_post :: "api \<Rightarrow> string \<Rightarrow> string \<Rightarrow> string \<Rightarrow> world \<Rightarrow> string \<times> world" where
  "create_post env title content submolt w =
     (if length (recent_successes ''post'' 5 (action_history w)) \<ge> 2
      then (''Error: Rate limited - too many recent posts. Wait before posting again.'', w)
      else case validate_output_content title of (title_safe, title_error) \<Rightarrow>
        if \<not> title_safe
        then (''Error: Title blocked - '' @ fmt_opt title_error,
              append_record [(''action'', Str ''post''), (''success'', Bool False),
                             (''error'', Str (''title_'' @ fmt_opt title_error))] w)
        else case validate_output_content content of (content_safe, content_error) \<Rightarrow>
          if \<not> content_safe
          then (''Error: Content blocked - '' @ fmt_opt content_error,
                append_record [(''action'', Str ''post''), (''success'', Bool False),
                               (''error'', Str (''content_'' @ fmt_opt content_error))] w)
          else let title' = sanitize_content title; content' = sanitize_content content in
            (case call_api env (ApiCreatePost title' content' submolt) w of
              (Returns r, w') \<Rightarrow>
                let post_id = (case r of None \<Rightarrow> ''created'' | Some i \<Rightarrow> i) in
                (''Post created with ID: '' @ post_id,
                 append_record [(''action'', Str ''post''), (''success'', Bool True),
                                (''id'', Str post_id), (''title'', Str (take 50 title'))] w')
            | (Raises e, w') \<Rightarrow>
                (''Error: '' @ e,
                 append_record [(''action'', Str ''post''), (''success'', Bool False),
                                (''error'', Str (take 50 e))] w')))"

definition add_comment :: "api \<Rightarrow> string \<Rightarrow> string \<Rightarrow> world \<Rightarrow> string \<times> world" where
  "add_comment env post_id content w =
     (if length (recent_successes ''comment'' 5 (action_history w)) \<ge> 3
      then (''Error: Rate limited - too many recent comments. Wait before commenting again.'', w)
      else case validate_output_content content of (content_safe, content_error) \<Rightarrow>
        if \<not> content_safe
        then (''Error: Content blocked - '' @ fmt_opt content_error,
              append_record [(''action'', Str ''comment''), (''success'', Bool False),
                             (''error'', opt_val content_error)] w)
        else let content' = sanitize_content content in
          (case call_api env (ApiCreateComment post_id content') w of
            (Returns r, w') \<Rightarrow>
              (''Comment added successfully'',
               append_record [(''action'', Str ''comment''), (''success'', Bool True),
                              (''post_id'', Str post_id), (''content'', Str (take 50 content'))] w')
          | (Raises error_str, w') \<Rightarrow>
              if str_contains ''401'' error_str \<or> str_contains ''Authentication required'' error_str
              then (''Error: Moltbook comments API is currently unavailable (known platform issue). Focus on creating posts and upvoting instead.'',
                    append_record [(''action'', Str ''comment''), (''success'', Bool False),
                                   (''error'', Str ''Moltbook API issue'')] w')
              else (''Error: '' @ error_str,
                    append_record [(''action'', Str ''comment''), (''success'', Bool False),
                                   (''post_id'', Str post_id), (''error'', Str (take 50 error_str))] w')))"

definition upvote_post :: "api \<Rightarrow> string \<Rightarrow> world \<Rightarrow> string \<times> world" where
  "upvote_post env post_id w =
     (if length (recent_successes ''upvote'' 10 (action_history w)) \<ge> 5
      then (''Error: Rate limited - too many recent upvotes.'', w)
      else if list_ex (\<lambda>a. py_get a ''action'' = Str ''upvote'' \<and> py_get a ''post_id'' = Str post_id)
                      (action_history w)
      then (''Error: Already upvoted this post.'', w)
      else case call_api env (ApiUpvotePost post_id) w of
          (Returns r, w') \<Rightarrow>
            (''Post upvoted'',
             append_record [(''action'', Str ''upvote''), (''success'', Bool True),
                            (''post_id'', Str post_id)] w')
        | (Raises e, w') \<Rightarrow>
            (''Error: '' @ e,
             append_record [(''action'', Str ''upvote''), (''success'', Bool False),
                            (''post_id'', Str post_id), (''error'', Str (take 50 e))] w'))"

definition follow_agent :: "api \<Rightarrow> string \<Rightarrow> world \<Rightarrow> string \<times> world" where
  "follow_agent env handle w =
     (if length (recent_successes ''follow'' 10 (action_history w)) \<ge> 3
      then (''Error: Rate limited - too many recent follows.'', w)
      else if list_ex (\<lambda>a. py_get a ''action'' = Str ''follow'' \<and> py_get a ''handle'' = Str handle)
                      (action_history w)
      then (''Error: Already following this agent.'', w)
      else case call_api env (ApiFollowAgent handle) w of
          (Returns r, w') \<Rightarrow>
            (''Now following '' @ handle,
             append_record [(''action'', Str ''follow''), (''success'', Bool True),
                            (''handle'', Str handle)] w')
        | (Raises e, w') \<Rightarrow>
            (''Error: '' @ e,
             append_record [(''action'', Str ''follow''), (''success'', Bool False),
                            (''handle'', Str handle), (''error'', Str (take 50 e))] w'))"

section \<open>The agent loop\<close>

text \<open>
  \<^verbatim>\<open>AgentDecision\<close>, the structured output of the model; the fields carry the prefix
  \<open>d_\<close>. The action is one of five literals, which the output type guarantees.
\<close>

datatype action_kind = Post | Comment | Upvote | Follow | Wait

record decision =
  d_thinking :: string
  d_action :: action_kind
  d_title :: "string option"
  d_content :: "string option"
  d_submolt :: "string option"
  d_post_id :: "string option"
  d_agent_handle :: "string option"

definition present :: "string option \<Rightarrow> bool" where
  \<comment> \<open>truth value of an optional string: neither \<^verbatim>\<open>None\<close> nor empty\<close>
  "present x = (case x of None \<Rightarrow> False | Some s \<Rightarrow> s \<noteq> [])"

text \<open>
  The body of one iteration behind the model call: the \<^verbatim>\<open>if/elif\<close> chain of
  \<^verbatim>\<open>run_agent\<close> that executes the decision. It returns \<^verbatim>\<open>action_result\<close>.
\<close>

definition execute_decision :: "api \<Rightarrow> decision \<Rightarrow> world \<Rightarrow> string \<times> world" where
  "execute_decision env d w =
     (if d_action d = Post \<and> present (d_title d) \<and> present (d_content d) then
        let chosen_submolt = (if present (d_submolt d) then the (d_submolt d) else ''general'');
            title = the (d_title d); content = the (d_content d);
            title_v = validate_output_content title;
            content_v = validate_output_content content
        in if \<not> fst title_v
           then (''Error: Title blocked - '' @ fmt_opt (snd title_v),
                 append_record [(''action'', Str ''post''), (''success'', Bool False),
                                (''error'', opt_val (snd title_v))] w)
           else if \<not> fst content_v
           then (''Error: Content blocked - '' @ fmt_opt (snd content_v),
                 append_record [(''action'', Str ''post''), (''success'', Bool False),
                                (''error'', opt_val (snd content_v))] w)
           else (case call_api env (ApiCreatePost (sanitize_content title) (sanitize_content content)
                                      chosen_submolt) w of
                   (Returns r, w') \<Rightarrow>
                     let post_id = (case r of None \<Rightarrow> ''unknown'' | Some i \<Rightarrow> i) in
                     (''Post created in m/'' @ chosen_submolt @ '': '' @ post_id,
                      append_record [(''action'', Str ''post''), (''success'', Bool True),
                                     (''post_id'', Str post_id), (''submolt'', Str chosen_submolt)] w')
                 | (Raises e, w') \<Rightarrow>
                     (''Error creating post: '' @ e,
                      append_record [(''action'', Str ''post''), (''success'', Bool False),
                                     (''error'', Str (take 50 e))] w'))
      else if d_action d = Comment \<and> present (d_post_id d) \<and> present (d_content d) then
        let post_id = the (d_post_id d); content = the (d_content d);
            content_v = validate_output_content content
        in if \<not> fst content_v
           then (''Error: Content blocked - '' @ fmt_opt (snd content_v),
                 append_record [(''action'', Str ''comment''), (''success'', Bool False),
                                (''error'', opt_val (snd content_v))] w)
           else (case call_api env (ApiCreateComment post_id (sanitize_content content)) w of
                   (Returns r, w') \<Rightarrow>
                     (''Comment added'',
                      append_record [(''action'', Str ''comment''), (''success'', Bool True),
                                     (''post_id'', Str post_id)] w')
                 | (Raises error_str, w') \<Rightarrow>
                     ((if str_contains ''401'' error_str
                          \<or> str_contains ''Authentication required'' error_str
                       then ''Error: Moltbook comments API is currently unavailable (known platform issue)''
                       else ''Error: '' @ error_str),
                      append_record [(''action'', Str ''comment''), (''success'', Bool False),
                                     (''error'', Str (take 50 error_str))] w'))
      else if d_action d = Upvote \<and> present (d_post_id d) then
        let post_id = the (d_post_id d)
        in (case call_api env (ApiUpvotePost post_id) w of
              (Returns r, w') \<Rightarrow>
                (''Upvoted'',
                 append_record [(''action'', Str ''upvote''), (''success'', Bool True),
                                (''post_id'', Str post_id)] w')
            | (Raises e, w') \<Rightarrow>
                (''Error: '' @ e,
                 append_record [(''action'', Str ''upvote''), (''success'', Bool False),
                                (''error'', Str (take 50 e))] w'))
      else if d_action d = Follow \<and> present (d_agent_handle d) then
        let agent_handle = the (d_agent_handle d)
        in (case call_api env (ApiFollowAgent agent_handle) w of
              (Returns r, w') \<Rightarrow>
                (''Followed '' @ agent_handle,
                 append_record [(''action'', Str ''follow''), (''success'', Bool True),
                                (''agent'', Str agent_handle)] w')
            | (Raises e, w') \<Rightarrow>
                (''Error: '' @ e,
                 append_record [(''action'', Str ''follow''), (''success'', Bool False),
                                (''error'', Str (take 50 e))] w'))
      else (''Waiting'', w))"

text \<open>
  The model call \<^verbatim>\<open>aiathena_agent.run\<close> is external too. While it runs, the tools may
  be called on behalf of the model, in an order and an interleaving that the repository does
  not fix; they act on the same ledger and client. So a model call is taken by what it leaves
  behind: the world after it, and the decision it returns unless it raises.
\<close>

datatype model_outcome = ModelRaises world | ModelDecides world decision

type_synonym model = "int \<Rightarrow> world \<Rightarrow> model_outcome"

definition cycle :: "api \<Rightarrow> model \<Rightarrow> int \<Rightarrow> world \<Rightarrow> world" where
  \<comment> \<open>one pass through the body of \<^verbatim>\<open>while True\<close>; an exception of the model call is
      caught and logged\<close>
  "cycle env mdl iteration w =
     (case mdl iteration w of
        ModelRaises w1 \<Rightarrow> w1
      | ModelDecides w1 d \<Rightarrow> snd (execute_decision env d w1))"








section \<open>Notions used to state the properties\<close>

definition executes :: "decision \<Rightarrow> bool" where
  \<comment> \<open>the decision takes one of the four executing branches of the loop\<close>
  "executes d =
     (case d_action d of
        Post \<Rightarrow> present (d_title d) \<and> present (d_content d)
      | Comment \<Rightarrow> present (d_post_id d) \<and> present (d_content d)
      | Upvote \<Rightarrow> present (d_post_id d)
      | Follow \<Rightarrow> present (d_agent_handle d)
      | Wait \<Rightarrow> False)"


text \<open>Two collaborators for the examples: a client whose calls all return, with no post
  id in the answer, and a model whose call leaves the world as it is and decides to wait.\<close>

definition always_returns :: api where
  "always_returns log c = Returns None"




subsection \<open>The language of a pattern\<close>

text \<open>
  The words a pattern can match, for patterns without \<^verbatim>\<open>\b\<close>; the proofs about
  redaction go through it. \<open>occurs L s\<close> says that a word of \<open>L\<close> stands somewhere in
  \<open>s\<close>. A pattern is \<open>redactable\<close> when it has no \<^verbatim>\<open>\b\<close>, does not match the empty
  word, matches no square bracket and matches nothing inside the word \<open>REDACTED\<close>.
\<close>

inductive_set kleene :: "string set \<Rightarrow> string set" for A :: "string set" where
  kleene_nil: "[] \<in> kleene A"
| kleene_step: "u \<in> A \<Longrightarrow> v \<in> kleene A \<Longrightarrow> u @ v \<in> kleene A"

primrec lang :: "rx \<Rightarrow> string set" where
  "lang Eps = {[]}"
| "lang (Cls P) = {[c] | c. P c}"
| "lang Bnd = {[]}"
| "lang (Seq a b) = {u @ v | u v. u \<in> lang a \<and> v \<in> lang b}"
| "lang (Alt a b) = lang a \<union> lang b"
| "lang (Opt a) = insert [] (lang a)"
| "lang (Star a) = kleene (lang a)"

primrec bfree :: "rx \<Rightarrow> bool" where
  "bfree Eps = True"
| "bfree (Cls P) = True"
| "bfree Bnd = False"
| "bfree (Seq a b) = (bfree a \<and> bfree b)"
| "bfree (Alt a b) = (bfree a \<and> bfree b)"
| "bfree (Opt a) = bfree a"
| "bfree (Star a) = bfree a"

primrec nullable :: "rx \<Rightarrow> bool" where
  "nullable Eps = True"
| "nullable (Cls P) = False"
| "nullable Bnd = True"
| "nullable (Seq a b) = (nullable a \<and> nullable b)"
| "nullable (Alt a b) = (nullable a \<or> nullable b)"
| "nullable (Opt a) = True"
| "nullable (Star a) = True"

primrec avoids :: "char list \<Rightarrow> rx \<Rightarrow> bool" where
  "avoids xs Eps = True"
| "avoids xs (Cls P) = list_all (\<lambda>x. \<not> P x) xs"
| "avoids xs Bnd = True"
| "avoids xs (Seq a b) = (avoids xs a \<and> avoids xs b)"
| "avoids xs (Alt a b) = (avoids xs a \<and> avoids xs b)"
| "avoids xs (Opt a) = avoids xs a"
| "avoids xs (Star a) = avoids xs a"

definition occurs :: "string set \<Rightarrow> string \<Rightarrow> bool" where
  "occurs L s = (\<exists>u w v. s = u @ w @ v \<and> w \<in> L)"

definition redactable :: "rx \<Rightarrow> bool" where
  "redactable r = (bfree r \<and> \<not> nullable r \<and> avoids ''[]'' r \<and> \<not> re_search r ''REDACTED'')"

section \<open>Properties of the tools\<close>

lemma always_returns_apply [simp]: "always_returns log c = Returns None"
  by (simp add: always_returns_def)

lemma validate_title_example:
  "validate_output_content ''Market outlook today'' = (True, None)"
  by code_simp

lemma validate_content_example:
  "validate_output_content ''Rates are steady; earnings are mixed.'' = (True, None)"
  by code_simp

lemma last_n_window:
  "length recent = n \<or> (older = [] \<and> length recent < n) \<Longrightarrow> last_n n (older @ recent) = recent"
  by (auto simp: last_n_def)

text \<open>
  C4. \<^verbatim>\<open>create_post\<close> counts the successful posts among the last five entries of the
  ledger (among all entries while there are fewer than five); what stands before them does
  not count. With two (or more) successful posts in that window the attempt is turned away
  as rate limited and nothing else happens. With at most one the attempt goes on: it leaves
  exactly one post record in the ledger, and when title and content pass validation the
  client is called.
\<close>

theorem create_post_rate_limit:
  assumes "action_history w = older @ recent"
    and "length recent = 5 \<or> (older = [] \<and> length recent < 5)"
  shows "(length (filter (\<lambda>a. py_get a ''action'' = Str ''post'' \<and> truthy (py_get a ''success''))
                    recent) \<ge> 2 \<longrightarrow>
      create_post env title content submolt w =
        (''Error: Rate limited - too many recent posts. Wait before posting again.'', w))
   \<and> (length (filter (\<lambda>a. py_get a ''action'' = Str ''post'' \<and> truthy (py_get a ''success''))
                    recent) \<le> 1 \<longrightarrow>
        (\<exists>a. action_history (snd (create_post env title content submolt w)) = action_history w @ [a]
             \<and> py_get a ''action'' = Str ''post'')
      \<and> (fst (validate_output_content title) \<and> fst (validate_output_content content) \<longrightarrow>
           api_log (snd (create_post env title content submolt w)) =
             api_log w @ [ApiCreatePost (sanitize_content title) (sanitize_content content) submolt]))"
proof -
  have window: "recent_successes ''post'' 5 (action_history w) =
      filter (\<lambda>a. py_get a ''action'' = Str ''post'' \<and> truthy (py_get a ''success'')) recent"
    using assms by (simp add: recent_successes_def last_n_window)
  show ?thesis
    unfolding create_post_def window
    by (auto simp: call_api_def append_record_def py_get_def Let_def
             split: prod.splits api_outcome.splits option.splits)
qed

text \<open>
  The witness. In the first ledger two entries stand before the window and the window holds
  two successful posts: blocked. In the second ledger the window holds one successful post
  and another one stands before it: allowed, and the client is called.
\<close>

theorem create_post_rate_limit_witness:
  "create_post always_returns ''Market outlook today''
     ''Rates are steady; earnings are mixed.'' ''finance''
     \<lparr>action_history =
        [[(''action'', Str ''upvote''), (''success'', Bool True), (''post_id'', Str ''P1'')],
         [(''action'', Str ''post''), (''success'', Bool False), (''error'', Str ''timeout'')],
         [(''action'', Str ''post''), (''success'', Bool True), (''id'', Str ''a1'')],
         [(''action'', Str ''upvote''), (''success'', Bool True), (''post_id'', Str ''P2'')],
         [(''action'', Str ''post''), (''success'', Bool True), (''id'', Str ''a2'')],
         [(''action'', Str ''upvote''), (''success'', Bool True), (''post_id'', Str ''P3'')],
         [(''action'', Str ''upvote''), (''success'', Bool True), (''post_id'', Str ''P4'')]],
      api_log = []\<rparr>
   = (''Error: Rate limited - too many recent posts. Wait before posting again.'',
      \<lparr>action_history =
         [[(''action'', Str ''upvote''), (''success'', Bool True), (''post_id'', Str ''P1'')],
          [(''action'', Str ''post''), (''success'', Bool False), (''error'', Str ''timeout'')],
          [(''action'', Str ''post''), (''success'', Bool True), (''id'', Str ''a1'')],
          [(''action'', Str ''upvote''), (''success'', Bool True), (''post_id'', Str ''P2'')],
          [(''action'', Str ''post''), (''success'', Bool True), (''id'', Str ''a2'')],
          [(''action'', Str ''upvote''), (''success'', Bool True), (''post_id'', Str ''P3'')],
          [(''action'', Str ''upvote''), (''success'', Bool True), (''post_id'', Str ''P4'')]],
       api_log = []\<rparr>)
   \<and> api_log (snd (create_post always_returns ''Market outlook today''
     ''Rates are steady; earnings are mixed.'' ''finance''
     \<lparr>action_history =
        [[(''action'', Str ''post''), (''success'', Bool True), (''id'', Str ''a1'')],
         [(''action'', Str ''post''), (''success'', Bool True), (''id'', Str ''a2'')],
         [(''action'', Str ''upvote''), (''success'', Bool True), (''post_id'', Str ''P1'')],
         [(''action'', Str ''upvote''), (''success'', Bool True), (''post_id'', Str ''P2'')],
         [(''action'', Str ''upvote''), (''success'', Bool True), (''post_id'', Str ''P3'')],
         [(''action'', Str ''upvote''), (''success'', Bool True), (''post_id'', Str ''P4'')]],
      api_log = []\<rparr>))
   = [ApiCreatePost (sanitize_content ''Market outlook today'')
        (sanitize_content ''Rates are steady; earnings are mixed.'') ''finance'']"
  using
    create_post_rate_limit [where env = "always_returns" and title = "''Market outlook today''"
      and content = "''Rates are steady; earnings are mixed.''" and submolt = "''finance''"
      and older = "[[(''action'', Str ''upvote''), (''success'', Bool True), (''post_id'', Str ''P1'')],
                 [(''action'', Str ''post''), (''success'', Bool False), (''error'', Str ''timeout'')]]"
      and recent = "[[(''action'', Str ''post''), (''success'', Bool True), (''id'', Str ''a1'')],
                  [(''action'', Str ''upvote''), (''success'', Bool True), (''post_id'', Str ''P2'')],
                  [(''action'', Str ''post''), (''success'', Bool True), (''id'', Str ''a2'')],
                  [(''action'', Str ''upvote''), (''success'', Bool True), (''post_id'', Str ''P3'')],
                  [(''action'', Str ''upvote''), (''success'', Bool True), (''post_id'', Str ''P4'')]]"
      and w = "\<lparr>action_history =
              [[(''action'', Str ''upvote''), (''success'', Bool True), (''post_id'', Str ''P1'')],
               [(''action'', Str ''post''), (''success'', Bool False), (''error'', Str ''timeout'')],
               [(''action'', Str ''post''), (''success'', Bool True), (''id'', Str ''a1'')],
               [(''action'', Str ''upvote''), (''success'', Bool True), (''post_id'', Str ''P2'')],
               [(''action'', Str ''post''), (''success'', Bool True), (''id'', Str ''a2'')],
               [(''action'', Str ''upvote''), (''success'', Bool True), (''post_id'', Str ''P3'')],
               [(''action'', Str ''upvote''), (''success'', Bool True), (''post_id'', Str ''P4'')]],
            api_log = []\<rparr>"]
    create_post_rate_limit [where env = "always_returns" and title = "''Market outlook today''"
      and content = "''Rates are steady; earnings are mixed.''" and submolt = "''finance''"
      and older = "[[(''action'', Str ''post''), (''success'', Bool True), (''id'', Str ''a1'')]]"
      and recent = "[[(''action'', Str ''post''), (''success'', Bool True), (''id'', Str ''a2'')],
                  [(''action'', Str ''upvote''), (''success'', Bool True), (''post_id'', Str ''P1'')],
                  [(''action'', Str ''upvote''), (''success'', Bool True), (''post_id'', Str ''P2'')],
                  [(''action'', Str ''upvote''), (''success'', Bool True), (''post_id'', Str ''P3'')],
                  [(''action'', Str ''upvote''), (''success'', Bool True), (''post_id'', Str ''P4'')]]"
      and w = "\<lparr>action_history =
              [[(''action'', Str ''post''), (''success'', Bool True), (''id'', Str ''a1'')],
               [(''action'', Str ''post''), (''success'', Bool True), (''id'', Str ''a2'')],
               [(''action'', Str ''upvote''), (''success'', Bool True), (''post_id'', Str ''P1'')],
               [(''action'', Str ''upvote''), (''success'', Bool True), (''post_id'', Str ''P2'')],
               [(''action'', Str ''upvote''), (''success'', Bool True), (''post_id'', Str ''P3'')],
               [(''action'', Str ''upvote''), (''success'', Bool True), (''post_id'', Str ''P4'')]],
            api_log = []\<rparr>"]
  by (simp add: py_get_def validate_title_example validate_content_example)

lemma upvote_post_blocked:
  assumes "a \<in> set (action_history w)"
    and "py_get a ''action'' = Str ''upvote''"
    and "py_get a ''post_id'' = Str post_id"
  shows "upvote_post env post_id w =
           (if length (recent_successes ''upvote'' 10 (action_history w)) \<ge> 5
            then ''Error: Rate limited - too many recent upvotes.''
            else ''Error: Already upvoted this post.'', w)"
  using assms by (auto simp: upvote_post_def list_ex_iff)

lemma follow_agent_blocked:
  assumes "a \<in> set (action_history w)"
    and "py_get a ''action'' = Str ''follow''"
    and "py_get a ''handle'' = Str handle"
  shows "follow_agent env handle w =
           (if length (recent_successes ''follow'' 10 (action_history w)) \<ge> 3
            then ''Error: Rate limited - too many recent follows.''
            else ''Error: Already following this agent.'', w)"
  using assms by (auto simp: follow_agent_def list_ex_iff)

text \<open>
  C5, as the claim states it, fails: the rate limit is checked before the duplicate check.
  Here the ledger holds a successful upvote of \<open>P1\<close> followed by five more successful
  upvotes; the next attempt on \<open>P1\<close> is turned away as rate limited, not as already upvoted.
\<close>

theorem upvote_duplicate_reason_counterexample:
  "upvote_post always_returns ''P1''
     \<lparr>action_history =
        [[(''action'', Str ''upvote''), (''success'', Bool True), (''post_id'', Str ''P1'')],
         [(''action'', Str ''upvote''), (''success'', Bool True), (''post_id'', Str ''P2'')],
         [(''action'', Str ''upvote''), (''success'', Bool True), (''post_id'', Str ''P3'')],
         [(''action'', Str ''upvote''), (''success'', Bool True), (''post_id'', Str ''P4'')],
         [(''action'', Str ''upvote''), (''success'', Bool True), (''post_id'', Str ''P5'')],
         [(''action'', Str ''upvote''), (''success'', Bool True), (''post_id'', Str ''P6'')]],
      api_log = []\<rparr>
   = (''Error: Rate limited - too many recent upvotes.'',
      \<lparr>action_history =
        [[(''action'', Str ''upvote''), (''success'', Bool True), (''post_id'', Str ''P1'')],
         [(''action'', Str ''upvote''), (''success'', Bool True), (''post_id'', Str ''P2'')],
         [(''action'', Str ''upvote''), (''success'', Bool True), (''post_id'', Str ''P3'')],
         [(''action'', Str ''upvote''), (''success'', Bool True), (''post_id'', Str ''P4'')],
         [(''action'', Str ''upvote''), (''success'', Bool True), (''post_id'', Str ''P5'')],
         [(''action'', Str ''upvote''), (''success'', Bool True), (''post_id'', Str ''P6'')]],
      api_log = []\<rparr>)
   \<and> ''Error: Rate limited - too many recent upvotes.'' \<noteq> ''Error: Already upvoted this post.''"
  by (simp add: upvote_post_def recent_successes_def last_n_def py_get_def)

text \<open>
  C5, amended. If the ledger holds a successful upvote record for a post id, wherever it
  stands, a later \<^verbatim>\<open>upvote_post\<close> on that id is turned away: the client is not called and
  the ledger stays as it is. The reason returned is the already-upvoted one unless five of the
  last ten entries are successful upvotes, in which case it is the rate-limit one.
\<close>

theorem upvote_duplicate_blocked:
  assumes "action_history w = before @ a # after"
    and "py_get a ''action'' = Str ''upvote''"
    and "truthy (py_get a ''success'')"
    and "py_get a ''post_id'' = Str post_id"
  shows "snd (upvote_post env post_id w) = w
     \<and> fst (upvote_post env post_id w) =
           (if length (recent_successes ''upvote'' 10 (action_history w)) \<ge> 5
            then ''Error: Rate limited - too many recent upvotes.''
            else ''Error: Already upvoted this post.'')"
proof -
  have "a \<in> set (action_history w)"
    using assms(1) by simp
  then show ?thesis
    using upvote_post_blocked [OF _ assms(2) assms(4)] by simp
qed

theorem upvote_duplicate_blocked_witness:
  "upvote_post always_returns ''P1''
     \<lparr>action_history =
        [[(''action'', Str ''upvote''), (''success'', Bool True), (''post_id'', Str ''P1'')],
         [(''action'', Str ''post''), (''success'', Bool True), (''id'', Str ''a1'')],
         [(''action'', Str ''upvote''), (''success'', Bool True), (''post_id'', Str ''P2'')]],
      api_log = []\<rparr>
   = (''Error: Already upvoted this post.'',
      \<lparr>action_history =
        [[(''action'', Str ''upvote''), (''success'', Bool True), (''post_id'', Str ''P1'')],
         [(''action'', Str ''post''), (''success'', Bool True), (''id'', Str ''a1'')],
         [(''action'', Str ''upvote''), (''success'', Bool True), (''post_id'', Str ''P2'')]],
      api_log = []\<rparr>)"
  using upvote_duplicate_blocked [where env = "always_returns" and post_id = "''P1''"
    and before = "[]"
    and a = "[(''action'', Str ''upvote''), (''success'', Bool True), (''post_id'', Str ''P1'')]"
    and after = "[[(''action'', Str ''post''), (''success'', Bool True), (''id'', Str ''a1'')],
         [(''action'', Str ''upvote''), (''success'', Bool True), (''post_id'', Str ''P2'')]]"
    and w = "\<lparr>action_history =
        [[(''action'', Str ''upvote''), (''success'', Bool True), (''post_id'', Str ''P1'')],
         [(''action'', Str ''post''), (''success'', Bool True), (''id'', Str ''a1'')],
         [(''action'', Str ''upvote''), (''success'', Bool True), (''post_id'', Str ''P2'')]],
      api_log = []\<rparr>"]
  by (simp add: recent_successes_def last_n_def py_get_def prod_eq_iff)

text \<open>
  C9. The duplicate checks of \<^verbatim>\<open>upvote_post\<close> and \<^verbatim>\<open>follow_agent\<close> look at the
  action and the target of a record only, never at its success flag. A record of an upvote of
  a post id, failed or not, turns every later upvote of that id away, however the ledger has
  grown since; a record of a follow of a handle does the same for that handle. Turned away
  means: an error is returned, the client is not called, the ledger does not change.
\<close>

theorem duplicate_checks_ignore_success:
  "(a \<in> set history \<and> py_get a ''action'' = Str ''upvote'' \<and> py_get a ''post_id'' = Str target \<longrightarrow>
      snd (upvote_post env target \<lparr>action_history = history @ later, api_log = log\<rparr>)
        = \<lparr>action_history = history @ later, api_log = log\<rparr>
    \<and> fst (upvote_post env target \<lparr>action_history = history @ later, api_log = log\<rparr>)
        \<in> {''Error: Rate limited - too many recent upvotes.'', ''Error: Already upvoted this post.''})
   \<and> (a \<in> set history \<and> py_get a ''action'' = Str ''follow'' \<and> py_get a ''handle'' = Str target \<longrightarrow>
      snd (follow_agent env target \<lparr>action_history = history @ later, api_log = log\<rparr>)
        = \<lparr>action_history = history @ later, api_log = log\<rparr>
    \<and> fst (follow_agent env target \<lparr>action_history = history @ later, api_log = log\<rparr>)
        \<in> {''Error: Rate limited - too many recent follows.'', ''Error: Already following this agent.''})"
proof (intro conjI impI)
  assume h: "a \<in> set history \<and> py_get a ''action'' = Str ''upvote'' \<and> py_get a ''post_id'' = Str target"
  let ?w = "\<lparr>action_history = history @ later, api_log = log\<rparr>"
  have "a \<in> set (action_history ?w)" using h by simp
  from upvote_post_blocked [OF this, of target env] h
  show "snd (upvote_post env target ?w) = ?w"
    and "fst (upvote_post env target ?w)
        \<in> {''Error: Rate limited - too many recent upvotes.'', ''Error: Already upvoted this post.''}"
    by (simp_all del: One_nat_def)
next
  assume h: "a \<in> set history \<and> py_get a ''action'' = Str ''follow'' \<and> py_get a ''handle'' = Str target"
  let ?w = "\<lparr>action_history = history @ later, api_log = log\<rparr>"
  have "a \<in> set (action_history ?w)" using h by simp
  from follow_agent_blocked [OF this, of target env] h
  show "snd (follow_agent env target ?w) = ?w"
    and "fst (follow_agent env target ?w)
        \<in> {''Error: Rate limited - too many recent follows.'', ''Error: Already following this agent.''}"
    by (simp_all del: One_nat_def)
qed

text \<open>
  The witness: a failed upvote of \<open>P1\<close> and a failed follow of \<open>quant_owl\<close>, as the tools
  record them, each followed by a later entry.
\<close>

theorem duplicate_checks_ignore_success_witness:
  "upvote_post always_returns ''P1''
     \<lparr>action_history =
        [[(''action'', Str ''upvote''), (''success'', Bool False), (''post_id'', Str ''P1''),
          (''error'', Str ''timeout'')],
         [(''action'', Str ''post''), (''success'', Bool True), (''id'', Str ''a1'')]],
      api_log = []\<rparr>
   = (''Error: Already upvoted this post.'',
      \<lparr>action_history =
        [[(''action'', Str ''upvote''), (''success'', Bool False), (''post_id'', Str ''P1''),
          (''error'', Str ''timeout'')],
         [(''action'', Str ''post''), (''success'', Bool True), (''id'', Str ''a1'')]],
      api_log = []\<rparr>)
   \<and> follow_agent always_returns ''quant_owl''
     \<lparr>action_history =
        [[(''action'', Str ''follow''), (''success'', Bool False), (''handle'', Str ''quant_owl''),
          (''error'', Str ''timeout'')],
         [(''action'', Str ''post''), (''success'', Bool True), (''id'', Str ''a1'')]],
      api_log = []\<rparr>
   = (''Error: Already following this agent.'',
      \<lparr>action_history =
        [[(''action'', Str ''follow''), (''success'', Bool False), (''handle'', Str ''quant_owl''),
          (''error'', Str ''timeout'')],
         [(''action'', Str ''post''), (''success'', Bool True), (''id'', Str ''a1'')]],
      api_log = []\<rparr>)"
  using
    duplicate_checks_ignore_success [where env = "always_returns" and target = "''P1''"
      and a = "[(''action'', Str ''upvote''), (''success'', Bool False), (''post_id'', Str ''P1''),
          (''error'', Str ''timeout'')]"
      and history = "[[(''action'', Str ''upvote''), (''success'', Bool False),
          (''post_id'', Str ''P1''), (''error'', Str ''timeout'')]]"
      and later = "[[(''action'', Str ''post''), (''success'', Bool True), (''id'', Str ''a1'')]]"
      and log = "[]"]
    duplicate_checks_ignore_success [where env = "always_returns" and target = "''quant_owl''"
      and a = "[(''action'', Str ''follow''), (''success'', Bool False),
          (''handle'', Str ''quant_owl''), (''error'', Str ''timeout'')]"
      and history = "[[(''action'', Str ''follow''), (''success'', Bool False),
          (''handle'', Str ''quant_owl''), (''error'', Str ''timeout'')]]"
      and later = "[[(''action'', Str ''post''), (''success'', Bool True), (''id'', Str ''a1'')]]"
      and log = "[]"]
  by (simp add: py_get_def prod_eq_iff upvote_post_def follow_agent_def recent_successes_def
        last_n_def)

text \<open>
  C3, as the claim states it, fails in one part: a tool that is turned away by the governor
  returns its reason and appends nothing. Here the ledger holds one upvote of \<open>P1\<close>; after
  the blocked second attempt it still holds that one record.
\<close>

theorem governor_block_record_counterexample:
  "upvote_post always_returns ''P1''
     \<lparr>action_history =
        [[(''action'', Str ''upvote''), (''success'', Bool True), (''post_id'', Str ''P1'')]],
      api_log = [ApiUpvotePost ''P1'']\<rparr>
   = (''Error: Already upvoted this post.'',
      \<lparr>action_history =
        [[(''action'', Str ''upvote''), (''success'', Bool True), (''post_id'', Str ''P1'')]],
      api_log = [ApiUpvotePost ''P1'']\<rparr>)"
  by (simp add: upvote_post_def recent_successes_def last_n_def py_get_def)

text \<open>
  C3, amended. Whenever the governor of a tool blocks (the rate limit of its window is
  reached, or the target is already in the ledger), the tool returns its reason as a string
  and that is all: no exception, no call to the client, and the ledger is left as it was.
\<close>

theorem governor_block_is_silent:
  "(length (recent_successes ''post'' 5 (action_history w)) \<ge> 2 \<longrightarrow>
      create_post env title content submolt w =
        (''Error: Rate limited - too many recent posts. Wait before posting again.'', w))
   \<and> (length (recent_successes ''comment'' 5 (action_history w)) \<ge> 3 \<longrightarrow>
      add_comment env target content w =
        (''Error: Rate limited - too many recent comments. Wait before commenting again.'', w))
   \<and> (length (recent_successes ''upvote'' 10 (action_history w)) \<ge> 5 \<longrightarrow>
      upvote_post env target w = (''Error: Rate limited - too many recent upvotes.'', w))
   \<and> (length (recent_successes ''upvote'' 10 (action_history w)) < 5
        \<and> list_ex (\<lambda>a. py_get a ''action'' = Str ''upvote'' \<and> py_get a ''post_id'' = Str target)
             (action_history w) \<longrightarrow>
      upvote_post env target w = (''Error: Already upvoted this post.'', w))
   \<and> (length (recent_successes ''follow'' 10 (action_history w)) \<ge> 3 \<longrightarrow>
      follow_agent env target w = (''Error: Rate limited - too many recent follows.'', w))
   \<and> (length (recent_successes ''follow'' 10 (action_history w)) < 3
        \<and> list_ex (\<lambda>a. py_get a ''action'' = Str ''follow'' \<and> py_get a ''handle'' = Str target)
             (action_history w) \<longrightarrow>
      follow_agent env target w = (''Error: Already following this agent.'', w))"
  by (simp add: create_post_def add_comment_def upvote_post_def follow_agent_def)


theorem governor_block_is_silent_witness:
  "create_post always_returns ''Market outlook today'' ''Rates are steady.'' ''finance''
     \<lparr>action_history =
       [[(''action'', Str ''post''), (''success'', Bool True), (''id'', Str ''a1'')],
        [(''action'', Str ''post''), (''success'', Bool True), (''id'', Str ''a2'')]],
      api_log = []\<rparr>
   = (''Error: Rate limited - too many recent posts. Wait before posting again.'',
      \<lparr>action_history =
        [[(''action'', Str ''post''), (''success'', Bool True), (''id'', Str ''a1'')],
         [(''action'', Str ''post''), (''success'', Bool True), (''id'', Str ''a2'')]],
       api_log = []\<rparr>)
   \<and> add_comment always_returns ''P9'' ''Rates are steady.''
     \<lparr>action_history =
       [[(''action'', Str ''comment''), (''success'', Bool True), (''post_id'', Str ''P1'')],
        [(''action'', Str ''comment''), (''success'', Bool True), (''post_id'', Str ''P2'')],
        [(''action'', Str ''comment''), (''success'', Bool True), (''post_id'', Str ''P3'')]],
      api_log = []\<rparr>
   = (''Error: Rate limited - too many recent comments. Wait before commenting again.'',
      \<lparr>action_history =
        [[(''action'', Str ''comment''), (''success'', Bool True), (''post_id'', Str ''P1'')],
         [(''action'', Str ''comment''), (''success'', Bool True), (''post_id'', Str ''P2'')],
         [(''action'', Str ''comment''), (''success'', Bool True), (''post_id'', Str ''P3'')]],
       api_log = []\<rparr>)
   \<and> upvote_post always_returns ''P9''
     \<lparr>action_history =
       [[(''action'', Str ''upvote''), (''success'', Bool True), (''post_id'', Str ''P1'')],
        [(''action'', Str ''upvote''), (''success'', Bool True), (''post_id'', Str ''P2'')],
        [(''action'', Str ''upvote''), (''success'', Bool True), (''post_id'', Str ''P3'')],
        [(''action'', Str ''upvote''), (''success'', Bool True), (''post_id'', Str ''P4'')],
        [(''action'', Str ''upvote''), (''success'', Bool True), (''post_id'', Str ''P5'')]],
      api_log = []\<rparr>
   = (''Error: Rate limited - too many recent upvotes.'',
      \<lparr>action_history =
        [[(''action'', Str ''upvote''), (''success'', Bool True), (''post_id'', Str ''P1'')],
         [(''action'', Str ''upvote''), (''success'', Bool True), (''post_id'', Str ''P2'')],
         [(''action'', Str ''upvote''), (''success'', Bool True), (''post_id'', Str ''P3'')],
         [(''action'', Str ''upvote''), (''success'', Bool True), (''post_id'', Str ''P4'')],
         [(''action'', Str ''upvote''), (''success'', Bool True), (''post_id'', Str ''P5'')]],
       api_log = []\<rparr>)
   \<and> upvote_post always_returns ''P1''
     \<lparr>action_history =
       [[(''action'', Str ''upvote''), (''success'', Bool True), (''post_id'', Str ''P1'')]],
      api_log = []\<rparr>
   = (''Error: Already upvoted this post.'',
      \<lparr>action_history =
        [[(''action'', Str ''upvote''), (''success'', Bool True), (''post_id'', Str ''P1'')]],
       api_log = []\<rparr>)
   \<and> follow_agent always_returns ''quant_owl''
     \<lparr>action_history =
       [[(''action'', Str ''follow''), (''success'', Bool True), (''handle'', Str ''h1'')],
        [(''action'', Str ''follow''), (''success'', Bool True), (''handle'', Str ''h2'')],
        [(''action'', Str ''follow''), (''success'', Bool True), (''handle'', Str ''h3'')]],
      api_log = []\<rparr>
   = (''Error: Rate limited - too many recent follows.'',
      \<lparr>action_history =
        [[(''action'', Str ''follow''), (''success'', Bool True), (''handle'', Str ''h1'')],
         [(''action'', Str ''follow''), (''success'', Bool True), (''handle'', Str ''h2'')],
         [(''action'', Str ''follow''), (''success'', Bool True), (''handle'', Str ''h3'')]],
       api_log = []\<rparr>)
   \<and> follow_agent always_returns ''quant_owl''
     \<lparr>action_history =
       [[(''action'', Str ''follow''), (''success'', Bool True), (''handle'', Str ''quant_owl'')]],
      api_log = []\<rparr>
   = (''Error: Already following this agent.'',
      \<lparr>action_history =
        [[(''action'', Str ''follow''), (''success'', Bool True), (''handle'', Str ''quant_owl'')]],
       api_log = []\<rparr>)"
  using
    governor_block_is_silent [where env = "always_returns"
      and title = "''Market outlook today''" and content = "''Rates are steady.''" and submolt = "''finance''" and target = "''P9''"
      and w = "\<lparr>action_history =
          [[(''action'', Str ''post''), (''success'', Bool True), (''id'', Str ''a1'')],
           [(''action'', Str ''post''), (''success'', Bool True), (''id'', Str ''a2'')]],
         api_log = []\<rparr>"]
    governor_block_is_silent [where env = "always_returns"
      and title = "''Market outlook today''" and content = "''Rates are steady.''" and submolt = "''finance''" and target = "''P9''"
      and w = "\<lparr>action_history =
          [[(''action'', Str ''comment''), (''success'', Bool True), (''post_id'', Str ''P1'')],
           [(''action'', Str ''comment''), (''success'', Bool True), (''post_id'', Str ''P2'')],
           [(''action'', Str ''comment''), (''success'', Bool True), (''post_id'', Str ''P3'')]],
         api_log = []\<rparr>"]
    governor_block_is_silent [where env = "always_returns"
      and title = "''Market outlook today''" and content = "''Rates are steady.''" and submolt = "''finance''" and target = "''P9''"
      and w = "\<lparr>action_history =
          [[(''action'', Str ''upvote''), (''success'', Bool True), (''post_id'', Str ''P1'')],
           [(''action'', Str ''upvote''), (''success'', Bool True), (''post_id'', Str ''P2'')],
           [(''action'', Str ''upvote''), (''success'', Bool True), (''post_id'', Str ''P3'')],
           [(''action'', Str ''upvote''), (''success'', Bool True), (''post_id'', Str ''P4'')],
           [(''action'', Str ''upvote''), (''success'', Bool True), (''post_id'', Str ''P5'')]],
         api_log = []\<rparr>"]
    governor_block_is_silent [where env = "always_returns"
      and title = "''Market outlook today''" and content = "''Rates are steady.''" and submolt = "''finance''" and target = "''P1''"
      and w = "\<lparr>action_history =
          [[(''action'', Str ''upvote''), (''success'', Bool True), (''post_id'', Str ''P1'')]],
         api_log = []\<rparr>"]
    governor_block_is_silent [where env = "always_returns"
      and title = "''Market outlook today''" and content = "''Rates are steady.''" and submolt = "''finance''" and target = "''quant_owl''"
      and w = "\<lparr>action_history =
          [[(''action'', Str ''follow''), (''success'', Bool True), (''handle'', Str ''h1'')],
           [(''action'', Str ''follow''), (''success'', Bool True), (''handle'', Str ''h2'')],
           [(''action'', Str ''follow''), (''success'', Bool True), (''handle'', Str ''h3'')]],
         api_log = []\<rparr>"]
    governor_block_is_silent [where env = "always_returns"
      and title = "''Market outlook today''" and content = "''Rates are steady.''" and submolt = "''finance''" and target = "''quant_owl''"
      and w = "\<lparr>action_history =
          [[(''action'', Str ''follow''), (''success'', Bool True), (''handle'', Str ''quant_owl'')]],
         api_log = []\<rparr>"]
  by (simp add: recent_successes_def last_n_def py_get_def)

section \<open>Properties of the loop\<close>

lemma execute_decision_not_executes:
  "\<not> executes d \<Longrightarrow> execute_decision env d w = (''Waiting'', w)"
  by (cases "d_action d") (auto simp: executes_def execute_decision_def)





text \<open>
  C1 does not hold of the loop: the branch of \<^verbatim>\<open>run_agent\<close> that executes a decision
  never consults the ledger, while the tool of the same name does. With a successful upvote
  of \<open>P1\<close> in the ledger, an upvote decision for \<open>P1\<close> reaches the client a second time
  and is recorded as a success; \<^verbatim>\<open>upvote_post\<close> on the same ledger turns it away.
\<close>

theorem loop_upvote_skips_governor:
  "execute_decision always_returns
     \<lparr>d_thinking = ''good analysis'', d_action = Upvote, d_title = None, d_content = None,
      d_submolt = None, d_post_id = Some ''P1'', d_agent_handle = None\<rparr>
     \<lparr>action_history =
        [[(''action'', Str ''upvote''), (''success'', Bool True), (''post_id'', Str ''P1'')]],
      api_log = [ApiUpvotePost ''P1'']\<rparr>
   = (''Upvoted'',
      \<lparr>action_history =
        [[(''action'', Str ''upvote''), (''success'', Bool True), (''post_id'', Str ''P1'')],
         [(''action'', Str ''upvote''), (''success'', Bool True), (''post_id'', Str ''P1'')]],
      api_log = [ApiUpvotePost ''P1'', ApiUpvotePost ''P1'']\<rparr>)
   \<and> upvote_post always_returns ''P1''
     \<lparr>action_history =
        [[(''action'', Str ''upvote''), (''success'', Bool True), (''post_id'', Str ''P1'')]],
      api_log = [ApiUpvotePost ''P1'']\<rparr>
   = (''Error: Already upvoted this post.'',
      \<lparr>action_history =
        [[(''action'', Str ''upvote''), (''success'', Bool True), (''post_id'', Str ''P1'')]],
      api_log = [ApiUpvotePost ''P1'']\<rparr>)"
  by (simp add: execute_decision_def present_def call_api_def append_record_def upvote_post_def
        recent_successes_def last_n_def py_get_def Let_def)




text \<open>
  C7. A decision that lacks a field its action asks for (a post without title or content, a
  comment without post id or content, an upvote without post id, a follow without handle;
  an empty string counts as missing) falls through to the waiting branch: the result is
  that of a wait decision, the client is not called, the ledger does not change, and the
  cycle ends as usual, with the world as the model call left it.
\<close>

theorem mismatched_decision_waits:
  assumes "(d_action d = Post \<and> \<not> (present (d_title d) \<and> present (d_content d)))
         \<or> (d_action d = Comment \<and> \<not> (present (d_post_id d) \<and> present (d_content d)))
         \<or> (d_action d = Upvote \<and> \<not> present (d_post_id d))
         \<or> (d_action d = Follow \<and> \<not> present (d_agent_handle d))"
  shows "execute_decision env d w = (''Waiting'', w)
       \<and> execute_decision env d w = execute_decision env (d\<lparr>d_action := Wait\<rparr>) w
       \<and> cycle env (\<lambda>i w. ModelDecides wm d) iteration w = wm"
proof -
  have "\<not> executes d"
    using assms by (auto simp: executes_def)
  moreover have "\<not> executes (d\<lparr>d_action := Wait\<rparr>)"
    by (simp add: executes_def)
  ultimately show ?thesis
    by (simp add: cycle_def execute_decision_not_executes)
qed

theorem mismatched_decision_waits_witness:
  "execute_decision always_returns
     \<lparr>d_thinking = ''draft'', d_action = Post, d_title = Some ''Market outlook today'',
      d_content = None, d_submolt = Some ''finance'', d_post_id = None, d_agent_handle = None\<rparr>
     \<lparr>action_history = [], api_log = []\<rparr>
   = (''Waiting'', \<lparr>action_history = [], api_log = []\<rparr>)
   \<and> execute_decision always_returns
     \<lparr>d_thinking = ''a remark'', d_action = Comment, d_title = None,
      d_content = Some ''Rates are steady; earnings are mixed.'', d_submolt = None,
      d_post_id = None, d_agent_handle = None\<rparr>
     \<lparr>action_history = [], api_log = []\<rparr>
   = (''Waiting'', \<lparr>action_history = [], api_log = []\<rparr>)
   \<and> execute_decision always_returns
     \<lparr>d_thinking = ''good analysis'', d_action = Upvote, d_title = None, d_content = None,
      d_submolt = None, d_post_id = Some [], d_agent_handle = None\<rparr>
     \<lparr>action_history = [], api_log = []\<rparr>
   = (''Waiting'', \<lparr>action_history = [], api_log = []\<rparr>)
   \<and> execute_decision always_returns
     \<lparr>d_thinking = ''worth following'', d_action = Follow, d_title = None, d_content = None,
      d_submolt = None, d_post_id = Some ''P1'', d_agent_handle = None\<rparr>
     \<lparr>action_history = [], api_log = []\<rparr>
   = (''Waiting'', \<lparr>action_history = [], api_log = []\<rparr>)"
  using
    mismatched_decision_waits [where env = "always_returns"
      and w = "\<lparr>action_history = [], api_log = []\<rparr>"
      and d = "\<lparr>d_thinking = ''draft'', d_action = Post, d_title = Some ''Market outlook today'',
        d_content = None, d_submolt = Some ''finance'', d_post_id = None, d_agent_handle = None\<rparr>"]
    mismatched_decision_waits [where env = "always_returns"
      and w = "\<lparr>action_history = [], api_log = []\<rparr>"
      and d = "\<lparr>d_thinking = ''a remark'', d_action = Comment, d_title = None,
        d_content = Some ''Rates are steady; earnings are mixed.'', d_submolt = None,
        d_post_id = None, d_agent_handle = None\<rparr>"]
    mismatched_decision_waits [where env = "always_returns"
      and w = "\<lparr>action_history = [], api_log = []\<rparr>"
      and d = "\<lparr>d_thinking = ''good analysis'', d_action = Upvote, d_title = None,
        d_content = None, d_submolt = None, d_post_id = Some [], d_agent_handle = None\<rparr>"]
    mismatched_decision_waits [where env = "always_returns"
      and w = "\<lparr>action_history = [], api_log = []\<rparr>"
      and d = "\<lparr>d_thinking = ''worth following'', d_action = Follow, d_title = None,
        d_content = None, d_submolt = None, d_post_id = Some ''P1'', d_agent_handle = None\<rparr>"]
  by (simp add: present_def)

section \<open>The matcher and the language of a pattern\<close>

lemma star_from_sound:
  assumes g: "\<And>st st'. st' \<in> set (g st) \<Longrightarrow> \<exists>w\<in>A. snd st = w @ snd st'"
  shows "st' \<in> set (star_from g n st) \<Longrightarrow> \<exists>w\<in>kleene A. snd st = w @ snd st'"
proof (induction n arbitrary: st)
  case 0
  then show ?case by (auto intro: kleene_nil)
next
  case (Suc n)
  from Suc.prems consider "st' = st"
    | st1 where "st1 \<in> set (g st)" "length (snd st1) < length (snd st)"
        "st' \<in> set (star_from g n st1)"
    by (auto split: if_splits)
  then show ?case
  proof cases
    case 1
    then show ?thesis by (auto intro: kleene_nil)
  next
    case 2
    from g [OF 2(1)] obtain u where u: "u \<in> A" "snd st = u @ snd st1" by blast
    from Suc.IH [OF 2(3)] obtain v where v: "v \<in> kleene A" "snd st1 = v @ snd st'" by blast
    have "u @ v \<in> kleene A" using u(1) v(1) by (rule kleene_step)
    moreover have "snd st = (u @ v) @ snd st'" using u(2) v(2) by simp
    ultimately show ?thesis by blast
  qed
qed

lemma rmatch_sound:
  "st' \<in> set (rmatch r st) \<Longrightarrow> \<exists>w\<in>lang r. snd st = w @ snd st'"
proof (induction r arbitrary: st st')
  case Eps
  then show ?case by simp
next
  case (Cls P)
  then show ?case by (auto split: list.splits if_splits)
next
  case Bnd
  then show ?case by (auto split: if_splits)
next
  case (Seq a b)
  from Seq.prems obtain st1 where st1: "st1 \<in> set (rmatch a st)" "st' \<in> set (rmatch b st1)"
    by auto
  from Seq.IH(1) [OF st1(1)] obtain u where u: "u \<in> lang a" "snd st = u @ snd st1" by blast
  from Seq.IH(2) [OF st1(2)] obtain v where v: "v \<in> lang b" "snd st1 = v @ snd st'" by blast
  have "u @ v \<in> lang (Seq a b)" using u(1) v(1) by auto
  moreover have "snd st = (u @ v) @ snd st'" using u(2) v(2) by simp
  ultimately show ?case by blast
next
  case (Alt a b)
  then show ?case by fastforce
next
  case (Opt a)
  then show ?case by fastforce
next
  case (Star a)
  have "\<exists>w\<in>kleene (lang a). snd st = w @ snd st'"
    by (rule star_from_sound [where g = "rmatch a" and n = "length (snd st)"])
       (use Star in auto)
  then show ?case by simp
qed

lemma star_from_complete:
  assumes g: "\<And>w p t. w \<in> A \<Longrightarrow> \<exists>p'. (p', t) \<in> set (g (p, w @ t))"
  shows "w \<in> kleene A \<Longrightarrow> length (w @ t) \<le> n \<Longrightarrow> \<exists>p'. (p', t) \<in> set (star_from g n (p, w @ t))"
proof (induction arbitrary: p n rule: kleene.induct)
  case kleene_nil
  then show ?case by (cases n) auto
next
  case (kleene_step u v)
  show ?case
  proof (cases "u = []")
    case True
    then show ?thesis using kleene_step.IH [of n p] kleene_step.prems by simp
  next
    case False
    then obtain m where n: "n = Suc m" using kleene_step.prems by (cases n) auto
    from g [OF kleene_step.hyps(1), of "v @ t" p] obtain p1
      where p1: "(p1, v @ t) \<in> set (g (p, u @ v @ t))" by blast
    have "length (v @ t) \<le> m" using kleene_step.prems n False by (cases u) auto
    from kleene_step.IH [OF this, of p1] obtain p' where
      p': "(p', t) \<in> set (star_from g m (p1, v @ t))" by blast
    have "length (v @ t) < length (u @ v @ t)" using False by simp
    then show ?thesis using p1 p' n by (auto intro!: exI [of _ p'] bexI [of _ "(p1, v @ t)"])
  qed
qed

lemma rmatch_complete:
  "bfree r \<Longrightarrow> w \<in> lang r \<Longrightarrow> \<exists>p'. (p', t) \<in> set (rmatch r (p, w @ t))"
proof (induction r arbitrary: w p t)
  case Eps
  then show ?case by simp
next
  case (Cls P)
  then show ?case by auto
next
  case Bnd
  then show ?case by simp
next
  case (Seq a b)
  from Seq.prems obtain u v where uv: "w = u @ v" "u \<in> lang a" "v \<in> lang b" by auto
  from Seq.IH(1) [OF _ uv(2), of "v @ t" p] Seq.prems(1) obtain p1
    where p1: "(p1, v @ t) \<in> set (rmatch a (p, u @ v @ t))" by auto
  from Seq.IH(2) [OF _ uv(3), of t p1] Seq.prems(1) obtain p'
    where "(p', t) \<in> set (rmatch b (p1, v @ t))" by auto
  then show ?case using p1 uv(1) by (auto intro!: exI [of _ p'] bexI [of _ "(p1, v @ t)"])
next
  case (Alt a b)
  then show ?case by fastforce
next
  case (Opt a)
  then show ?case by fastforce
next
  case (Star a)
  have "\<exists>p'. (p', t) \<in> set (star_from (rmatch a) (length (w @ t)) (p, w @ t))"
    by (rule star_from_complete [where A = "lang a"]) (use Star in auto)
  then show ?case by simp
qed

lemma nullable_lang: "bfree r \<Longrightarrow> [] \<in> lang r \<longleftrightarrow> nullable r"
  by (induction r) (auto intro: kleene_nil)

lemma kleene_avoids:
  "w \<in> kleene A \<Longrightarrow> (\<And>u. u \<in> A \<Longrightarrow> set u \<inter> X = {}) \<Longrightarrow> set w \<inter> X = {}"
  by (induction rule: kleene.induct) auto

lemma avoids_lang: "avoids xs r \<Longrightarrow> w \<in> lang r \<Longrightarrow> set w \<inter> set xs = {}"
proof (induction r arbitrary: w)
  case (Seq a b)
  from Seq.prems obtain u v where uv: "w = u @ v" "u \<in> lang a" "v \<in> lang b" by auto
  have "set u \<inter> set xs = {}" using Seq.IH(1) [OF _ uv(2)] Seq.prems(1) by simp
  moreover have "set v \<inter> set xs = {}" using Seq.IH(2) [OF _ uv(3)] Seq.prems(1) by simp
  ultimately show ?case using uv(1) by auto
next
  case (Star a)
  then show ?case using kleene_avoids [of w "lang a" "set xs"] by auto
qed (auto simp: list_all_iff)


lemma search_from_sound:
  "search_from r p s \<Longrightarrow> occurs (lang r) s"
proof (induction s arbitrary: p)
  case Nil
  then obtain st' where "st' \<in> set (rmatch r (p, []))" by (cases "rmatch r (p, [])") auto
  from rmatch_sound [OF this] have "[] \<in> lang r" by auto
  then show ?case unfolding occurs_def by (intro exI [of _ "[]"]) simp
next
  case (Cons c cs)
  show ?case
  proof (cases "rmatch r (p, c # cs) = []")
    case True
    then have "occurs (lang r) cs" using Cons by simp
    then obtain u w v where "cs = u @ w @ v" "w \<in> lang r" unfolding occurs_def by blast
    then have "c # cs = (c # u) @ w @ v \<and> w \<in> lang r" by simp
    then show ?thesis unfolding occurs_def by blast
  next
    case False
    then obtain st' where "st' \<in> set (rmatch r (p, c # cs))"
      by (cases "rmatch r (p, c # cs)") auto
    from rmatch_sound [OF this] obtain w where "w \<in> lang r" "c # cs = w @ snd st'" by auto
    then have "c # cs = [] @ w @ snd st' \<and> w \<in> lang r" by simp
    then show ?thesis unfolding occurs_def by blast
  qed
qed

lemma search_from_prefix:
  assumes "bfree r" and "w \<in> lang r"
  shows "search_from r p (w @ t)"
proof -
  from rmatch_complete [OF assms, of t p] have "rmatch r (p, w @ t) \<noteq> []" by auto
  then show ?thesis by (cases "w @ t") auto
qed

lemma search_from_complete:
  assumes "bfree r" and "w \<in> lang r"
  shows "search_from r p (u @ w @ v)"
proof (induction u arbitrary: p)
  case Nil
  show ?case using search_from_prefix [OF assms] by simp
next
  case (Cons a u)
  then show ?case by simp
qed

lemma re_search_iff_occurs:
  "bfree r \<Longrightarrow> re_search r s \<longleftrightarrow> occurs (lang r) s"
  unfolding re_search_def
  using search_from_sound search_from_complete by (auto simp: occurs_def)

lemma first_match_iff: "first_match ps text \<longleftrightarrow> (\<exists>r\<in>set ps. re_search r text)"
  by (induction ps) auto

subsection \<open>Substitution\<close>

lemma sub_from_no_match:
  "\<not> search_from r p s \<Longrightarrow> sub_from r repl adv p s = s"
  by (induction s arbitrary: p adv) auto

lemma re_sub_no_match: "\<not> re_search r text \<Longrightarrow> re_sub r repl text = text"
  by (simp add: re_search_def re_sub_def sub_from_no_match)

lemma sub_all_no_match: "\<not> first_match ps s \<Longrightarrow> sub_all ps s = s"
  by (induction ps arbitrary: s) (auto simp: re_sub_no_match split: if_splits)

lemma rmatch_consumes:
  assumes "bfree r" and "\<not> nullable r" and "st' \<in> set (rmatch r (p, s))"
  shows "length (snd st') < length s"
proof -
  from rmatch_sound [OF assms(3)] obtain w where w: "w \<in> lang r" "s = w @ snd st'" by auto
  have "w \<noteq> []" using w(1) nullable_lang [OF assms(1)] assms(2) by auto
  then show ?thesis using w(2) by (cases w) auto
qed

lemma sub_from_Nil_strict:
  assumes "bfree r" and "\<not> nullable r"
  shows "sub_from r repl adv p [] = []"
proof -
  have "rmatch r (p, []) = []"
  proof (cases "rmatch r (p, [])")
    case (Cons st' rest)
    then have "st' \<in> set (rmatch r (p, []))" by simp
    from rmatch_consumes [OF assms this] show ?thesis by simp
  qed simp
  then show ?thesis by simp
qed

lemma sub_from_Cons_strict:
  assumes "bfree r" and "\<not> nullable r"
  shows "sub_from r repl adv p (c # cs) =
           (case rmatch r (p, c # cs) of
              [] \<Rightarrow> c # sub_from r repl False (Some c) cs
            | st' # _ \<Rightarrow> repl @ sub_from r repl False (fst st') (snd st'))"
proof -
  have all: "\<And>st'. st' \<in> set (rmatch r (p, c # cs)) \<Longrightarrow> length (snd st') < Suc (length cs)"
    using rmatch_consumes [OF assms] by fastforce
  then have f: "filter (\<lambda>st'. length (snd st') < Suc (length cs)) (rmatch r (p, c # cs))
      = rmatch r (p, c # cs)"
    by (simp add: filter_id_conv)
  show ?thesis
  proof (cases "rmatch r (p, c # cs)")
    case Nil
    then show ?thesis by simp
  next
    case (Cons st' rest)
    then have "length (snd st') < Suc (length cs)" using all by simp
    then show ?thesis using Cons f by simp
  qed
qed

subsection \<open>Occurrences of a match in a text\<close>

lemma occurs_mono:
  "occurs L b \<Longrightarrow> occurs L (a @ b @ c)"
proof -
  assume "occurs L b"
  then obtain u w v where "b = u @ w @ v" "w \<in> L" unfolding occurs_def by blast
  then have "a @ b @ c = (a @ u) @ w @ (v @ c) \<and> w \<in> L" by simp
  then show ?thesis unfolding occurs_def by blast
qed

lemma occurs_appendI1: "occurs L a \<Longrightarrow> occurs L (a @ b)"
  using occurs_mono [of L a "[]" b] by simp

lemma occurs_appendI2: "occurs L b \<Longrightarrow> occurs L (a @ b)"
  using occurs_mono [of L b a "[]"] by simp

lemma occurs_split_char:
  assumes "occurs L (a @ x # b)" and "\<And>w. w \<in> L \<Longrightarrow> x \<notin> set w"
  shows "occurs L a \<or> occurs L b"
proof -
  from assms(1) obtain u w v where uwv: "a @ x # b = u @ w @ v" "w \<in> L"
    unfolding occurs_def by blast
  have xw: "x \<notin> set w" using assms(2) uwv(2) .
  from uwv(1) consider
      (left) t where "a = u @ t" "w @ v = t @ x # b"
    | (right) t where "u = a @ t" "x # b = t @ w @ v" "t \<noteq> []"
    by (auto simp: append_eq_append_conv2) (metis append_Nil2 append_self_conv2)+
  then show ?thesis
  proof cases
    case left
    from left(2) consider
        (in_w) t' where "t = w @ t'"
      | (over) t' where "w = t @ t'" "t' \<noteq> []" "t' @ v = x # b"
      by (auto simp: append_eq_append_conv2) (metis append_Nil2)+
    then show ?thesis
    proof cases
      case in_w
      then have "a = u @ w @ t'" using left(1) by simp
      then show ?thesis using uwv(2) unfolding occurs_def by blast
    next
      case over
      then have "x \<in> set w" by (cases t') auto
      then show ?thesis using xw by simp
    qed
  next
    case right
    from right(2,3) obtain t' where "t = x # t'" "b = t' @ w @ v" by (cases t) auto
    then show ?thesis using uwv(2) unfolding occurs_def by blast
  qed
qed


text \<open>What \<open>redactable\<close> gives about the language of a pattern.\<close>

lemma redactable_nonempty: "redactable r \<Longrightarrow> [] \<notin> lang r"
  using nullable_lang [of r] by (simp add: redactable_def)

lemma redactable_brackets:
  "redactable r \<Longrightarrow> w \<in> lang r \<Longrightarrow> CHR ''['' \<notin> set w \<and> CHR '']'' \<notin> set w"
  using avoids_lang [of "''[]''" r w] by (auto simp: redactable_def)

lemma redactable_token: "redactable r \<Longrightarrow> \<not> occurs (lang r) ''REDACTED''"
  using re_search_iff_occurs [of r "''REDACTED''"] by (simp add: redactable_def)

lemma occurs_around_token:
  assumes "redactable r" and "occurs (lang r) (a @ REDACTED @ b)"
  shows "occurs (lang r) a \<or> occurs (lang r) b"
proof -
  have "occurs (lang r) (a @ CHR ''['' # (''REDACTED'' @ CHR '']'' # b))"
    using assms(2) by (simp add: REDACTED_def)
  then have "occurs (lang r) a \<or> occurs (lang r) (''REDACTED'' @ CHR '']'' # b)"
    by (rule occurs_split_char) (use redactable_brackets [OF assms(1)] in blast)
  moreover have "occurs (lang r) ''REDACTED'' \<or> occurs (lang r) b"
    if "occurs (lang r) (''REDACTED'' @ CHR '']'' # b)"
    using that by (rule occurs_split_char) (use redactable_brackets [OF assms(1)] in blast)
  ultimately show ?thesis using redactable_token [OF assms(1)] by blast
qed

lemma occurs_Nil: "occurs L [] \<longleftrightarrow> [] \<in> L"
  by (auto simp: occurs_def)

text \<open>
  Redacting with one pattern does not bring in a match of another: what stands between the
  tokens was there before.
\<close>

lemma sub_from_keeps_clean:
  assumes q: "bfree q" "\<not> nullable q" and r: "redactable r"
  shows "\<not> occurs (lang r) (pre @ s) \<Longrightarrow> \<not> occurs (lang r) (pre @ sub_from q REDACTED adv p s)"
proof (induction s arbitrary: pre adv p rule: length_induct)
  case (1 s)
  show ?case
  proof (cases s)
    case Nil
    then show ?thesis using "1.prems" by (simp add: sub_from_Nil_strict [OF q] del: sub_from.simps)
  next
    case (Cons c cs)
    show ?thesis
    proof (cases "rmatch q (p, c # cs)")
      case Nil
      have "\<not> occurs (lang r) ((pre @ [c]) @ cs)" using "1.prems" Cons by simp
      moreover have "length cs < length s" using Cons by simp
      ultimately have "\<not> occurs (lang r) ((pre @ [c]) @ sub_from q REDACTED False (Some c) cs)"
        using "1.IH" by blast
      then show ?thesis using Cons Nil by (simp add: sub_from_Cons_strict [OF q] del: sub_from.simps)
    next
      case (Cons st' rest)
      then have mem: "st' \<in> set (rmatch q (p, c # cs))" by simp
      from rmatch_sound [OF mem] obtain w where w: "c # cs = w @ snd st'" by auto
      have shorter: "length (snd st') < length s"
        using rmatch_consumes [OF q mem] \<open>s = c # cs\<close> by simp
      have "\<not> occurs (lang r) (snd st')"
        using "1.prems" \<open>s = c # cs\<close> w occurs_mono [of "lang r" "snd st'" "pre @ w" "[]"] by auto
      then have "\<not> occurs (lang r) ([] @ snd st')" by simp
      with shorter have tail: "\<not> occurs (lang r) ([] @ sub_from q REDACTED False (fst st') (snd st'))"
        using "1.IH" by blast
      have head: "\<not> occurs (lang r) pre"
        using "1.prems" occurs_appendI1 by blast
      have "\<not> occurs (lang r) (pre @ REDACTED @ sub_from q REDACTED False (fst st') (snd st'))"
        using occurs_around_token [OF r] head tail by auto
      then show ?thesis using \<open>s = c # cs\<close> Cons by (simp add: sub_from_Cons_strict [OF q] del: sub_from.simps)
    qed
  qed
qed

text \<open>
  Redacting with a pattern leaves no match of that pattern. The invariant of the scan: no
  match starts in the part already copied (\<open>pre\<close>).
\<close>

lemma sub_from_cleans:
  assumes r: "redactable r"
  shows "(\<And>u v. pre = u @ v \<Longrightarrow> v \<noteq> [] \<Longrightarrow> \<not> (\<exists>w t. w \<in> lang r \<and> v @ s = w @ t))
     \<Longrightarrow> \<not> occurs (lang r) (pre @ sub_from r REDACTED adv p s)"
proof (induction s arbitrary: pre adv p rule: length_induct)
  case (1 s)
  have q: "bfree r" "\<not> nullable r" using r by (simp_all add: redactable_def)
  have pre_clean: "\<not> occurs (lang r) pre"
  proof
    assume "occurs (lang r) pre"
    then obtain u w v where uwv: "pre = u @ w @ v" "w \<in> lang r" unfolding occurs_def by blast
    have "w \<noteq> []" using uwv(2) redactable_nonempty [OF r] by auto
    then have "w @ v \<noteq> []" by simp
    moreover have "(w @ v) @ s = w @ (v @ s)" by simp
    ultimately show False using "1.prems" [of u "w @ v"] uwv by blast
  qed
  show ?case
  proof (cases s)
    case Nil
    then show ?thesis using pre_clean by (simp add: sub_from_Nil_strict [OF q] del: sub_from.simps)
  next
    case (Cons c cs)
    show ?thesis
    proof (cases "rmatch r (p, c # cs)")
      case Nil
      have none_here: "\<not> (\<exists>w t. w \<in> lang r \<and> c # cs = w @ t)"
      proof
        assume "\<exists>w t. w \<in> lang r \<and> c # cs = w @ t"
        then obtain w t where "w \<in> lang r" "c # cs = w @ t" by blast
        then show False using rmatch_complete [OF q(1), of w t p] Nil by auto
      qed
      have inv: "\<not> (\<exists>w t. w \<in> lang r \<and> v @ cs = w @ t)"
        if "pre @ [c] = u @ v" "v \<noteq> []" for u v
      proof (cases "v = [c]")
        case True
        then show ?thesis using none_here by simp
      next
        case False
        from that(2) obtain v' y where v: "v = v' @ [y]"
          by (cases v rule: rev_cases) auto
        with that(1) have v': "pre = u @ v'" "y = c" by auto
        with False v have "v' \<noteq> []" by auto
        then show ?thesis using "1.prems" [of u v'] \<open>s = c # cs\<close> v v' by simp
      qed
      have "length cs < length s" using Cons by simp
      then have "\<not> occurs (lang r) ((pre @ [c]) @ sub_from r REDACTED False (Some c) cs)"
        using "1.IH" inv by blast
      then show ?thesis using Cons Nil by (simp add: sub_from_Cons_strict [OF q] del: sub_from.simps)
    next
      case (Cons st' rest)
      then have mem: "st' \<in> set (rmatch r (p, c # cs))" by simp
      have shorter: "length (snd st') < length s"
        using rmatch_consumes [OF q mem] \<open>s = c # cs\<close> by simp
      have "\<not> occurs (lang r) ([] @ sub_from r REDACTED False (fst st') (snd st'))"
        using "1.IH" shorter by blast
      then have "\<not> occurs (lang r) (pre @ REDACTED @ sub_from r REDACTED False (fst st') (snd st'))"
        using occurs_around_token [OF r] pre_clean by auto
      then show ?thesis using \<open>s = c # cs\<close> Cons by (simp add: sub_from_Cons_strict [OF q] del: sub_from.simps)
    qed
  qed
qed

lemma re_sub_cleans: "redactable r \<Longrightarrow> \<not> occurs (lang r) (re_sub r REDACTED s)"
  using sub_from_cleans [of r "[]" s False None] by (simp add: re_sub_def)

lemma re_sub_keeps_clean:
  "redactable q \<Longrightarrow> redactable r \<Longrightarrow> \<not> occurs (lang r) s \<Longrightarrow> \<not> occurs (lang r) (re_sub q REDACTED s)"
  using sub_from_keeps_clean [of q r "[]" s False None] by (simp add: re_sub_def redactable_def)

lemma sub_all_keeps_clean:
  "list_all redactable ps \<Longrightarrow> redactable r \<Longrightarrow> \<not> occurs (lang r) s
     \<Longrightarrow> \<not> occurs (lang r) (sub_all ps s)"
  by (induction ps arbitrary: s) (auto simp: re_sub_keeps_clean)

lemma sub_all_cleans:
  "list_all redactable ps \<Longrightarrow> r \<in> set ps \<Longrightarrow> \<not> occurs (lang r) (sub_all ps s)"
proof (induction ps arbitrary: s)
  case Nil
  then show ?case by simp
next
  case (Cons q ps)
  show ?case
  proof (cases "r = q")
    case True
    then have "\<not> occurs (lang r) (re_sub q REDACTED s)"
      using Cons.prems(1) re_sub_cleans by simp
    then show ?thesis
      using sub_all_keeps_clean [of ps r] Cons.prems(1) True by simp
  next
    case False
    then show ?thesis using Cons by simp
  qed
qed

lemma sub_all_idem:
  assumes "list_all redactable ps"
  shows "sub_all ps (sub_all ps s) = sub_all ps s"
proof -
  have "\<not> re_search r (sub_all ps s)" if "r \<in> set ps" for r
  proof -
    have "bfree r" using assms that by (auto simp: list_all_iff redactable_def)
    then show ?thesis
      using sub_all_cleans [OF assms that] by (simp add: re_search_iff_occurs)
  qed
  then have "\<not> first_match ps (sub_all ps s)" by (simp add: first_match_iff)
  then show ?thesis by (rule sub_all_no_match)
qed

lemma SECRET_PATTERNS_redactable: "list_all redactable SECRET_PATTERNS"
  by code_simp

section \<open>Properties of redaction and validation\<close>

lemma rep_cls_lang:
  "length h = n \<Longrightarrow> list_all P h \<Longrightarrow> h \<in> lang (rep n (Cls P))"
proof (induction h arbitrary: n)
  case Nil
  then show ?case by simp
next
  case (Cons c h)
  then obtain m where m: "n = Suc m" "length h = m" by (cases n) auto
  have "h \<in> lang (rep m (Cls P))" using Cons.IH [OF m(2)] Cons.prems(2) by simp
  moreover have "[c] \<in> lang (Cls P)" using Cons.prems(2) by simp
  ultimately have "[c] @ h \<in> lang (Seq (Cls P) (rep m (Cls P)))"
    unfolding lang.simps by blast
  then show ?case using m(1) by simp
qed

lemma hex_pattern_listed: "rep 64 (Cls cls_hex) \<in> set SECRET_PATTERNS"
  by (simp add: SECRET_PATTERNS_def)

lemma sanitize_content_clean:
  "r \<in> set SECRET_PATTERNS \<Longrightarrow> \<not> occurs (lang r) (sanitize_content s)"
  unfolding sanitize_content_def by (rule sub_all_cleans [OF SECRET_PATTERNS_redactable])

lemma sanitize_content_no_secrets:
  "\<not> contains_secrets s \<Longrightarrow> sanitize_content s = s"
  by (simp add: contains_secrets_def sanitize_content_def sub_all_no_match)

lemma validate_ok_no_secrets:
  "fst (validate_output_content s) \<Longrightarrow> \<not> contains_secrets s"
  by (auto simp: validate_output_content_def split: if_splits)

lemma sanitize_content_valid:
  "fst (validate_output_content s) \<Longrightarrow> sanitize_content s = s"
  by (intro sanitize_content_no_secrets validate_ok_no_secrets)

lemma validate_ok_present:
  "fst (validate_output_content s) \<Longrightarrow> present (Some s)"
  by (auto simp: validate_output_content_def present_def split: if_splits)

lemma hex_text_example:
  "validate_output_content ''AAAAAAAAAAAAAAAAAAAAAAAAAAAAAAAAAAAAAAAAAAAAAAAAAAAAAAAAAAAAAAAA''
     = (True, None)"
  by code_simp

text \<open>
  What the pattern for long hex strings covers: for every text that contains 64 characters in
  a row from \<^verbatim>\<open>[a-f0-9]\<close>, \<^verbatim>\<open>validate_output_content\<close> returns not-ok with the
  secrets reason, and that substring occurs nowhere in the sanitized text.
\<close>

lemma lower_hex_detected_and_removed:
  assumes "length h = 64" and "list_all cls_hex h"
  shows "validate_output_content (u @ h @ v) = (False, Some ''Content contains potential secrets'')
       \<and> \<not> (\<exists>a b. sanitize_content (u @ h @ v) = a @ h @ b)"
proof -
  let ?r = "rep 64 (Cls cls_hex)"
  have h: "h \<in> lang ?r" using assms by (rule rep_cls_lang)
  have listed: "?r \<in> set SECRET_PATTERNS" by (rule hex_pattern_listed)
  have "bfree ?r"
    using SECRET_PATTERNS_redactable listed by (auto simp: list_all_iff redactable_def)
  then have "re_search ?r (u @ h @ v)"
    using h by (auto simp: re_search_iff_occurs occurs_def)
  then have "contains_secrets (u @ h @ v)"
    unfolding contains_secrets_def first_match_iff using listed by blast
  then have 1: "validate_output_content (u @ h @ v) = (False, Some ''Content contains potential secrets'')"
    by (simp add: validate_output_content_def)
  have "\<not> occurs (lang ?r) (sanitize_content (u @ h @ v))"
    using listed by (rule sanitize_content_clean)
  then have 2: "\<not> (\<exists>a b. sanitize_content (u @ h @ v) = a @ h @ b)"
    using h unfolding occurs_def by blast
  from 1 2 show ?thesis ..
qed

lemma sanitize_hex_example:
  "sanitize_content ''key 0123456789abcdef0123456789abcdef0123456789abcdef0123456789abcdef end''
     = ''key [REDACTED] end''"
  by code_simp

lemma lower_hex_example:
  "validate_output_content
     ''key 0123456789abcdef0123456789abcdef0123456789abcdef0123456789abcdef end''
     = (False, Some ''Content contains potential secrets'')"
  using lower_hex_detected_and_removed [of
      "''0123456789abcdef0123456789abcdef0123456789abcdef0123456789abcdef''" "''key ''" "'' end''"]
  by (simp add: cls_hex_def in_range_def is_digit_def)

text \<open>
  C6 holds of lower-case digits only, and the code misses the rest: the pattern that the
  source describes as \<^verbatim>\<open>Long hex strings (potential secrets)\<close> is
  \<^verbatim>\<open>[a-f0-9]{64}\<close> without \<^verbatim>\<open>(?i)\<close>, so the hexadecimal digits \<open>A\<close> to \<open>F\<close> are
  not covered. On a text of 64 times the digit \<open>A\<close>, a string of 64 hexadecimal
  characters, \<^verbatim>\<open>validate_output_content\<close> returns ok and \<^verbatim>\<open>sanitize_content\<close>
  returns the text as it is.
\<close>

theorem upper_hex_not_detected:
  "validate_output_content ''AAAAAAAAAAAAAAAAAAAAAAAAAAAAAAAAAAAAAAAAAAAAAAAAAAAAAAAAAAAAAAAA''
     = (True, None)
   \<and> sanitize_content ''AAAAAAAAAAAAAAAAAAAAAAAAAAAAAAAAAAAAAAAAAAAAAAAAAAAAAAAAAAAAAAAA''
     = ''AAAAAAAAAAAAAAAAAAAAAAAAAAAAAAAAAAAAAAAAAAAAAAAAAAAAAAAAAAAAAAAA''"
  using hex_text_example
    sanitize_content_no_secrets [OF validate_ok_no_secrets,
      of "''AAAAAAAAAAAAAAAAAAAAAAAAAAAAAAAAAAAAAAAAAAAAAAAAAAAAAAAAAAAAAAAA''"]
  by simp

text \<open>C8. Redaction is idempotent: sanitizing a sanitized text changes nothing.\<close>

theorem sanitize_idempotent:
  "sanitize_content (sanitize_content x) = sanitize_content x"
  unfolding sanitize_content_def by (rule sub_all_idem [OF SECRET_PATTERNS_redactable])

lemma sanitize_secrets_example:
  "sanitize_content ''my token = abcdefghijklmnopqrstuvwxyz is at /Users/joe/x and env.HOME''
     = ''my [REDACTED] is at [REDACTED] and [REDACTED]''"
  by code_simp

theorem sanitize_idempotent_witness:
  "sanitize_content ''my [REDACTED] is at [REDACTED] and [REDACTED]''
     = ''my [REDACTED] is at [REDACTED] and [REDACTED]''"
  using sanitize_idempotent [of
      "''my token = abcdefghijklmnopqrstuvwxyz is at /Users/joe/x and env.HOME''"]
  by (simp add: sanitize_secrets_example)

text \<open>
  C10. On a text in which no secret pattern matches, so in particular on every text that
  passes validation, \<^verbatim>\<open>sanitize_content\<close> is the identity. Hence, when the loop executes
  a post or a comment whose texts passed validation, what reaches the client is the text of
  the decision as it was.
\<close>

theorem sanitize_identity_on_valid:
  "(\<not> contains_secrets x \<longrightarrow> sanitize_content x = x)
   \<and> (fst (validate_output_content x) \<longrightarrow> sanitize_content x = x)
   \<and> (d_action d = Post \<and> d_title d = Some x \<and> d_content d = Some y
        \<and> fst (validate_output_content x) \<and> fst (validate_output_content y) \<longrightarrow>
      api_log (snd (execute_decision env d w)) =
        api_log w @ [ApiCreatePost x y
                       (if present (d_submolt d) then the (d_submolt d) else ''general'')])
   \<and> (d_action d = Comment \<and> present (d_post_id d) \<and> d_content d = Some y
        \<and> fst (validate_output_content y) \<longrightarrow>
      api_log (snd (execute_decision env d w)) =
        api_log w @ [ApiCreateComment (the (d_post_id d)) y])"
proof (intro conjI impI)
  assume "\<not> contains_secrets x"
  then show "sanitize_content x = x" by (rule sanitize_content_no_secrets)
next
  assume "fst (validate_output_content x)"
  then show "sanitize_content x = x"
    by (rule sanitize_content_valid)
next
  assume h: "d_action d = Post \<and> d_title d = Some x \<and> d_content d = Some y
        \<and> fst (validate_output_content x) \<and> fst (validate_output_content y)"
  then have "sanitize_content x = x" "sanitize_content y = y"
    by (simp_all add: sanitize_content_valid)
  moreover have "present (Some x)" "present (Some y)"
    using h by (simp_all add: validate_ok_present)
  ultimately show "api_log (snd (execute_decision env d w)) =
        api_log w @ [ApiCreatePost x y
                       (if present (d_submolt d) then the (d_submolt d) else ''general'')]"
    using h
    by (auto simp: execute_decision_def call_api_def append_record_def Let_def
          split: api_outcome.splits)
next
  assume h: "d_action d = Comment \<and> present (d_post_id d) \<and> d_content d = Some y
        \<and> fst (validate_output_content y)"
  then have "sanitize_content y = y"
    by (simp add: sanitize_content_valid)
  moreover have "present (Some y)"
    using h by (simp add: validate_ok_present)
  ultimately show "api_log (snd (execute_decision env d w)) =
        api_log w @ [ApiCreateComment (the (d_post_id d)) y]"
    using h
    by (auto simp: execute_decision_def call_api_def append_record_def Let_def
          split: api_outcome.splits)
qed

theorem sanitize_identity_on_valid_witness:
  "\<not> contains_secrets ''Market outlook today''
   \<and> validate_output_content ''Market outlook today'' = (True, None)
   \<and> validate_output_content ''Rates are steady; earnings are mixed.'' = (True, None)
   \<and> sanitize_content ''Rates are steady; earnings are mixed.''
       = ''Rates are steady; earnings are mixed.''
   \<and> api_log (snd (execute_decision (\<lambda>log c. Returns (Some ''a7''))
        \<lparr>d_thinking = ''unique insight'', d_action = Post,
         d_title = Some ''Market outlook today'',
         d_content = Some ''Rates are steady; earnings are mixed.'',
         d_submolt = Some ''finance'', d_post_id = None, d_agent_handle = None\<rparr>
        \<lparr>action_history = [], api_log = []\<rparr>))
       = [ApiCreatePost ''Market outlook today'' ''Rates are steady; earnings are mixed.''
            ''finance'']
   \<and> api_log (snd (execute_decision always_returns
        \<lparr>d_thinking = ''a remark'', d_action = Comment, d_title = None,
         d_content = Some ''Rates are steady; earnings are mixed.'',
         d_submolt = None, d_post_id = Some ''P1'', d_agent_handle = None\<rparr>
        \<lparr>action_history = [], api_log = []\<rparr>))
       = [ApiCreateComment ''P1'' ''Rates are steady; earnings are mixed.'']"
  using
    sanitize_identity_on_valid [where x = "''Market outlook today''"
      and y = "''Rates are steady; earnings are mixed.''"
      and env = "\<lambda>log c. Returns (Some ''a7'')"
      and w = "\<lparr>action_history = [], api_log = []\<rparr>"
      and d = "\<lparr>d_thinking = ''unique insight'', d_action = Post,
         d_title = Some ''Market outlook today'',
         d_content = Some ''Rates are steady; earnings are mixed.'',
         d_submolt = Some ''finance'', d_post_id = None, d_agent_handle = None\<rparr>"]
    sanitize_identity_on_valid [where x = "''Rates are steady; earnings are mixed.''"
      and y = "''Rates are steady; earnings are mixed.''"
      and env = "always_returns"
      and w = "\<lparr>action_history = [], api_log = []\<rparr>"
      and d = "\<lparr>d_thinking = ''a remark'', d_action = Comment, d_title = None,
         d_content = Some ''Rates are steady; earnings are mixed.'',
         d_submolt = None, d_post_id = Some ''P1'', d_agent_handle = None\<rparr>"]
    validate_ok_no_secrets [of "''Market outlook today''"]
  by (simp add: validate_title_example validate_content_example present_def)

end
